theory Spec2Isabelle
  imports Main
begin

section \<open>Python strings\<close>

text \<open>
  A Python \<open>str\<close> is a sequence of code points. The model reads \<^typ>\<open>char\<close> as a code
  point below 256, so \<^const>\<open>length\<close> is Python's \<open>len\<close>. The character classes
  below are those of \<open>str.isspace\<close> and \<open>str.isdigit\<close> on that range.
\<close>

definition isspace :: "char \<Rightarrow> bool" where
  "isspace c = (c \<in> set [CHR 0x09, CHR 0x0A, CHR 0x0B, CHR 0x0C, CHR 0x0D,
                          CHR 0x1C, CHR 0x1D, CHR 0x1E, CHR 0x1F, CHR 0x20,
                          CHR 0x85, CHR 0xA0])"

definition isdigit_char :: "char \<Rightarrow> bool" where
  "isdigit_char c = (c \<in> set ''0123456789'' \<or> c \<in> set [CHR 0xB2, CHR 0xB3, CHR 0xB9])"

text \<open>\<open>s.isdigit()\<close>: every character is a digit and there is at least one.\<close>

definition isdigit :: "string \<Rightarrow> bool" where
  "isdigit s = (s \<noteq> [] \<and> list_all isdigit_char s)"

text \<open>\<open>s.strip()\<close>: leading and trailing whitespace removed.\<close>

definition strip :: "string \<Rightarrow> string" where
  "strip s = rev (dropWhile isspace (rev (dropWhile isspace s)))"

text \<open>\<open>s.replace(c, '')\<close> for a one-character \<open>c\<close>.\<close>

definition replace_with_empty :: "char \<Rightarrow> string \<Rightarrow> string" where
  "replace_with_empty c s = filter (\<lambda>x. x \<noteq> c) s"

text \<open>
  \<open>c.upper() == 'X'\<close>. The letters a to z map to A to Z; no other code point has
  an upper case that is an ASCII letter, so only \<open>x\<close> and \<open>X\<close> pass.
\<close>

definition upper_is_X :: "char \<Rightarrow> bool" where
  "upper_is_X c = (c = CHR ''x'' \<or> c = CHR ''X'')"

text \<open>Case folding of the letters A to Z, as a case-insensitive match compares them.\<close>

definition lower_char :: "char \<Rightarrow> char" where
  "lower_char c =
     (let n = (of_char c :: nat) in if 65 \<le> n \<and> n \<le> 90 then char_of (n + 32) else c)"

definition lower :: "string \<Rightarrow> string" where
  "lower s = map lower_char s"

section \<open>The validation layer (models.py)\<close>

text \<open>
  A field of a request body is absent, an explicit \<open>null\<close>, or a value. Pydantic
  tells the first two apart (\<open>exclude_unset\<close>), and so does the update handler.
\<close>

datatype 'a field = Unset | Null | Val 'a

datatype verr =
    Missing
  | NoneNotAllowed
  | MinLength nat
  | MaxLength nat
  | NotGe int
  | NotLe int
  | ValueError string

record payload =
  p_title :: "string field"
  p_author :: "string field"
  p_ISBN :: "string field"
  p_genre :: "string field"
  p_publication_year :: "int field"

record book_create =
  b_title :: string
  b_author :: string
  b_ISBN :: string
  b_genre :: string
  b_publication_year :: int

record book_update =
  u_title :: "string field"
  u_author :: "string field"
  u_ISBN :: "string field"
  u_genre :: "string field"
  u_publication_year :: "int field"

text \<open>Running the next validator on the value the previous one returned.\<close>

definition and_then :: "'e + 'a \<Rightarrow> ('a \<Rightarrow> 'e + 'b) \<Rightarrow> 'e + 'b" where
  "and_then r f = (case r of Inl e \<Rightarrow> Inl e | Inr v \<Rightarrow> f v)"

text \<open>
  \<open>Field(..., min_length=lo, max_length=hi)\<close> on a \<open>str\<close>: the length of the value as
  it was sent. These checks run before the class's own validators.
\<close>

definition constr_length :: "nat \<Rightarrow> nat \<Rightarrow> string \<Rightarrow> verr + string" where
  "constr_length lo hi v =
     (if length v < lo then Inl (MinLength lo)
      else if hi < length v then Inl (MaxLength hi)
      else Inr v)"

text \<open>\<open>Field(..., ge=lo, le=hi)\<close> on an \<open>int\<close>.\<close>

definition conint :: "int \<Rightarrow> int \<Rightarrow> int \<Rightarrow> verr + int" where
  "conint lo hi v =
     (if v < lo then Inl (NotGe lo)
      else if hi < v then Inl (NotLe hi)
      else Inr v)"

text \<open>A required field (\<open>Field(...)\<close>): absent and \<open>null\<close> are both errors.\<close>

definition required :: "'a field \<Rightarrow> verr + 'a" where
  "required f = (case f of Unset \<Rightarrow> Inl Missing | Null \<Rightarrow> Inl NoneNotAllowed | Val v \<Rightarrow> Inr v)"

text \<open>\<open>BookBase.validate_isbn\<close>.\<close>

definition BookBase_validate_isbn :: "string \<Rightarrow> verr + string" where
  "BookBase_validate_isbn v =
     (let isbn = replace_with_empty (CHR '' '') (replace_with_empty (CHR ''-'') v) in
      if \<not> (length isbn = 10 \<or> length isbn = 13)
      then Inl (ValueError ''ISBN must be 10 or 13 characters long'')
      else if length isbn = 10
      then (if \<not> (isdigit (butlast isbn) \<and> (isdigit_char (last isbn) \<or> upper_is_X (last isbn)))
            then Inl (ValueError ''Invalid ISBN-10 format'')
            else Inr v)
      else (if \<not> isdigit isbn
            then Inl (ValueError ''Invalid ISBN-13 format'')
            else Inr v))"

text \<open>\<open>BookBase.validate_strings\<close>.\<close>

definition BookBase_validate_strings :: "string \<Rightarrow> verr + string" where
  "BookBase_validate_strings v =
     (if strip v = [] then Inl (ValueError ''Field cannot be empty or just whitespace'')
      else Inr (strip v))"

text \<open>\<open>BookUpdate.validate_isbn\<close>: the same checks, after the test for \<open>None\<close>.\<close>

definition BookUpdate_validate_isbn :: "string option \<Rightarrow> verr + string option" where
  "BookUpdate_validate_isbn v =
     (case v of
        None \<Rightarrow> Inr None
      | Some s \<Rightarrow>
          (let isbn = replace_with_empty (CHR '' '') (replace_with_empty (CHR ''-'') s) in
           if \<not> (length isbn = 10 \<or> length isbn = 13)
           then Inl (ValueError ''ISBN must be 10 or 13 characters long'')
           else if length isbn = 10
           then (if \<not> (isdigit (butlast isbn) \<and> (isdigit_char (last isbn) \<or> upper_is_X (last isbn)))
                 then Inl (ValueError ''Invalid ISBN-10 format'')
                 else Inr v)
           else (if \<not> isdigit isbn
                 then Inl (ValueError ''Invalid ISBN-13 format'')
                 else Inr v)))"

text \<open>\<open>BookUpdate.validate_strings\<close>.\<close>

definition BookUpdate_validate_strings :: "string option \<Rightarrow> verr + string option" where
  "BookUpdate_validate_strings v =
     (if v \<noteq> None \<and> strip (the v) = []
      then Inl (ValueError ''Field cannot be empty or just whitespace'')
      else Inr (if v \<noteq> None then Some (strip (the v)) else v))"

text \<open>
  The fields of \<open>BookBase\<close>, each as pydantic validates it: the field must be there, then
  the constraint of its \<open>Field\<close>, then the validator of the class.
\<close>

definition BookBase_title :: "string field \<Rightarrow> verr + string" where
  "BookBase_title f =
     and_then (required f) (\<lambda>v. and_then (constr_length 1 200 v) BookBase_validate_strings)"

definition BookBase_author :: "string field \<Rightarrow> verr + string" where
  "BookBase_author f =
     and_then (required f) (\<lambda>v. and_then (constr_length 1 100 v) BookBase_validate_strings)"

definition BookBase_ISBN :: "string field \<Rightarrow> verr + string" where
  "BookBase_ISBN f =
     and_then (required f) (\<lambda>v. and_then (constr_length 10 17 v) BookBase_validate_isbn)"

definition BookBase_genre :: "string field \<Rightarrow> verr + string" where
  "BookBase_genre f =
     and_then (required f) (\<lambda>v. and_then (constr_length 1 50 v) BookBase_validate_strings)"

definition BookBase_publication_year :: "int field \<Rightarrow> verr + int" where
  "BookBase_publication_year f = and_then (required f) (conint 1000 2024)"

text \<open>
  The fields of \<open>BookUpdate\<close>. An absent field keeps its default and no validator runs;
  on \<open>null\<close> only the validator of the class runs; a value is checked as above.
\<close>

definition to_field :: "'a option \<Rightarrow> 'a field" where
  "to_field v = (case v of None \<Rightarrow> Null | Some x \<Rightarrow> Val x)"

definition optional_str ::
  "nat \<Rightarrow> nat \<Rightarrow> (string option \<Rightarrow> verr + string option) \<Rightarrow> string field \<Rightarrow> verr + string field"
where
  "optional_str lo hi post f =
     (case f of
        Unset \<Rightarrow> Inr Unset
      | Null \<Rightarrow> and_then (post None) (\<lambda>w. Inr (to_field w))
      | Val v \<Rightarrow>
          and_then (constr_length lo hi v)
            (\<lambda>v'. and_then (post (Some v')) (\<lambda>w. Inr (to_field w))))"

definition BookUpdate_title :: "string field \<Rightarrow> verr + string field" where
  "BookUpdate_title f = optional_str 1 200 BookUpdate_validate_strings f"

definition BookUpdate_author :: "string field \<Rightarrow> verr + string field" where
  "BookUpdate_author f = optional_str 1 100 BookUpdate_validate_strings f"

definition BookUpdate_ISBN :: "string field \<Rightarrow> verr + string field" where
  "BookUpdate_ISBN f = optional_str 10 17 BookUpdate_validate_isbn f"

definition BookUpdate_genre :: "string field \<Rightarrow> verr + string field" where
  "BookUpdate_genre f = optional_str 1 50 BookUpdate_validate_strings f"

definition BookUpdate_publication_year :: "int field \<Rightarrow> verr + int field" where
  "BookUpdate_publication_year f =
     (case f of
        Unset \<Rightarrow> Inr Unset
      | Null \<Rightarrow> Inr Null
      | Val v \<Rightarrow> and_then (conint 1000 2024 v) (\<lambda>w. Inr (Val w)))"

text \<open>The errors of a model: one entry for each field that failed.\<close>

definition errs :: "string \<Rightarrow> verr + 'a \<Rightarrow> (string \<times> verr) list" where
  "errs name r = (case r of Inl e \<Rightarrow> [(name, e)] | Inr _ \<Rightarrow> [])"

definition BookCreate :: "payload \<Rightarrow> (string \<times> verr) list + book_create" where
  "BookCreate p =
     (let t = BookBase_title (p_title p);
          a = BookBase_author (p_author p);
          i = BookBase_ISBN (p_ISBN p);
          g = BookBase_genre (p_genre p);
          y = BookBase_publication_year (p_publication_year p)
      in if isl t \<or> isl a \<or> isl i \<or> isl g \<or> isl y
         then Inl (errs ''title'' t @ errs ''author'' a @ errs ''ISBN'' i @ errs ''genre'' g
                   @ errs ''publication_year'' y)
         else Inr \<lparr>b_title = projr t, b_author = projr a, b_ISBN = projr i, b_genre = projr g,
                   b_publication_year = projr y\<rparr>)"

definition BookUpdate :: "payload \<Rightarrow> (string \<times> verr) list + book_update" where
  "BookUpdate p =
     (let t = BookUpdate_title (p_title p);
          a = BookUpdate_author (p_author p);
          i = BookUpdate_ISBN (p_ISBN p);
          g = BookUpdate_genre (p_genre p);
          y = BookUpdate_publication_year (p_publication_year p)
      in if isl t \<or> isl a \<or> isl i \<or> isl g \<or> isl y
         then Inl (errs ''title'' t @ errs ''author'' a @ errs ''ISBN'' i @ errs ''genre'' g
                   @ errs ''publication_year'' y)
         else Inr \<lparr>u_title = projr t, u_author = projr a, u_ISBN = projr i, u_genre = projr g,
                   u_publication_year = projr y\<rparr>)"

section \<open>The document store\<close>

text \<open>
  A document of the \<open>books\<close> collection. \<open>d_id\<close> is the \<open>_id\<close>: an \<open>ObjectId\<close>, held as
  the 24 lower-case hexadecimal digits that \<open>str\<close> prints. A field that is missing or
  \<open>null\<close> in the document is \<open>None\<close>: the queries and the response model of this
  program treat the two alike.
\<close>

record doc =
  d_id :: string
  d_title :: "string option"
  d_author :: "string option"
  d_ISBN :: "string option"
  d_genre :: "string option"
  d_publication_year :: "int option"

text \<open>
  The handle \<open>db\<close>: a collection in its natural order, or a store that cannot be
  reached, where every operation raises.
\<close>

datatype db = Connected "doc list" | Unreachable

datatype store_error = DuplicateKeyError

definition is_hex_char :: "char \<Rightarrow> bool" where
  "is_hex_char c = (c \<in> set ''0123456789abcdefABCDEF'')"

definition is_lower_hex_char :: "char \<Rightarrow> bool" where
  "is_lower_hex_char c = (c \<in> set ''0123456789abcdef'')"

text \<open>\<open>ObjectId.is_valid\<close> on a string: 24 hexadecimal digits.\<close>

definition ObjectId_is_valid :: "string \<Rightarrow> bool" where
  "ObjectId_is_valid s = (length s = 24 \<and> list_all is_hex_char s)"

text \<open>\<open>ObjectId(s)\<close>: the twelve bytes, which print in lower case.\<close>

definition ObjectId :: "string \<Rightarrow> string" where
  "ObjectId s = lower s"

text \<open>An identifier as the driver generates it and as the store holds it.\<close>

definition oid_wf :: "string \<Rightarrow> bool" where
  "oid_wf i = (length i = 24 \<and> list_all is_lower_hex_char i)"

text \<open>\<open>find_one(q)\<close>: the first document, in natural order, that satisfies the query.\<close>

definition find_one :: "(doc \<Rightarrow> bool) \<Rightarrow> doc list \<Rightarrow> doc option" where
  "find_one q docs = find q docs"

text \<open>
  \<open>insert_one\<close>: the store refuses a second document with the same \<open>_id\<close>, and one with
  the same \<open>ISBN\<close> (the unique index of database.py).
\<close>

definition insert_one :: "doc \<Rightarrow> doc list \<Rightarrow> store_error + doc list" where
  "insert_one d docs =
     (if list_ex (\<lambda>x. d_id x = d_id d \<or> d_ISBN x = d_ISBN d) docs then Inl DuplicateKeyError
      else Inr (docs @ [d]))"

text \<open>
  \<open>$set\<close> with \<open>book_update.dict(exclude_unset=True)\<close>: a key that was never set is not
  in the dict, a key set to \<open>null\<close> is written as \<open>null\<close>.
\<close>

definition set_field :: "'a field \<Rightarrow> 'a option \<Rightarrow> 'a option" where
  "set_field f old = (case f of Unset \<Rightarrow> old | Null \<Rightarrow> None | Val v \<Rightarrow> Some v)"

definition set_fields :: "book_update \<Rightarrow> doc \<Rightarrow> doc" where
  "set_fields u d =
     d\<lparr>d_title := set_field (u_title u) (d_title d),
       d_author := set_field (u_author u) (d_author d),
       d_ISBN := set_field (u_ISBN u) (d_ISBN d),
       d_genre := set_field (u_genre u) (d_genre d),
       d_publication_year := set_field (u_publication_year u) (d_publication_year d)\<rparr>"

fun replace_first :: "(doc \<Rightarrow> bool) \<Rightarrow> doc \<Rightarrow> doc list \<Rightarrow> doc list" where
  "replace_first q d' [] = []"
| "replace_first q d' (x # xs) = (if q x then d' # xs else x # replace_first q d' xs)"

text \<open>
  \<open>update_one({"_id": oid}, {"$set": u})\<close>, returning \<open>modified_count\<close> and the
  collection. A document that the \<open>$set\<close> leaves as it was is not counted as modified.
\<close>

definition update_one :: "string \<Rightarrow> book_update \<Rightarrow> doc list \<Rightarrow> store_error + (nat \<times> doc list)" where
  "update_one oid u docs =
     (case find (\<lambda>d. d_id d = oid) docs of
        None \<Rightarrow> Inr (0, docs)
      | Some d \<Rightarrow>
          (let d' = set_fields u d in
           if d' = d then Inr (0, docs)
           else if d_ISBN d' \<noteq> d_ISBN d \<and> list_ex (\<lambda>x. d_id x \<noteq> oid \<and> d_ISBN x = d_ISBN d') docs
           then Inl DuplicateKeyError
           else Inr (1, replace_first (\<lambda>d. d_id d = oid) d' docs)))"

section \<open>Regular expressions of the store\<close>

text \<open>
  \<open>{"$regex": pat, "$options": "i"}\<close> searches the field for a match of \<open>pat\<close>, read as a
  regular expression, ignoring case. The model interprets the patterns made of the
  wildcard \<open>.\<close> and of characters that stand for themselves; for any other pattern it
  asks the parameter \<open>pcre\<close>, the rest of the store's engine, which gives the compiled
  matcher, or \<open>None\<close> when the store rejects the pattern.
\<close>

datatype atom = Lit char | AnyChar

text \<open>
  Characters the model leaves to \<open>pcre\<close>: the operators of the pattern language other
  than the wildcard, the null character, and code points from 128 on.
\<close>

definition is_operator_char :: "char \<Rightarrow> bool" where
  "is_operator_char c =
     (c \<in> set [CHR 0x5C, CHR ''^'', CHR ''$'', CHR ''['', CHR '']'', CHR ''|'', CHR ''('',
               CHR '')'', CHR ''?'', CHR ''*'', CHR ''+'', CHR ''{'', CHR ''}''])"

definition in_fragment :: "char \<Rightarrow> bool" where
  "in_fragment c = (\<not> is_operator_char c \<and> c \<noteq> CHR 0x00 \<and> (of_char c :: nat) < 128)"

definition compile :: "string \<Rightarrow> atom list" where
  "compile pat = map (\<lambda>c. if c = CHR ''.'' then AnyChar else Lit c) pat"

fun atom_matches :: "atom \<Rightarrow> char \<Rightarrow> bool" where
  "atom_matches (Lit a) c = (lower_char a = lower_char c)"
| "atom_matches AnyChar c = (c \<noteq> CHR 0x0A)"

fun match_here :: "atom list \<Rightarrow> string \<Rightarrow> bool" where
  "match_here [] s = True"
| "match_here (a # as) [] = False"
| "match_here (a # as) (c # cs) = (atom_matches a c \<and> match_here as cs)"

fun match_anywhere :: "atom list \<Rightarrow> string \<Rightarrow> bool" where
  "match_anywhere as [] = match_here as []"
| "match_anywhere as (c # cs) = (match_here as (c # cs) \<or> match_anywhere as cs)"

definition regex_i :: "(string \<Rightarrow> (string \<Rightarrow> bool) option) \<Rightarrow> string \<Rightarrow> (string \<Rightarrow> bool) option" where
  "regex_i pcre pat =
     (if list_all in_fragment pat then Some (match_anywhere (compile pat)) else pcre pat)"

text \<open>A \<open>$regex\<close> condition on a field: a missing or \<open>null\<close> field does not match.\<close>

definition field_matches :: "(string \<Rightarrow> bool) \<Rightarrow> string option \<Rightarrow> bool" where
  "field_matches m v = (case v of None \<Rightarrow> False | Some s \<Rightarrow> m s)"

section \<open>The request handlers (main.py)\<close>

datatype http_error = HTTPException nat string

record book_response =
  r_id :: string
  r_title :: string
  r_author :: string
  r_ISBN :: string
  r_genre :: string
  r_publication_year :: int

text \<open>
  \<open>BookResponse(**book)\<close>, after \<open>book["id"] = str(book["_id"])\<close>. The class inherits
  the fields and the validators of \<open>BookBase\<close>, so they run again on what the store
  returned.
\<close>

definition BookResponse :: "doc \<Rightarrow> (string \<times> verr) list + book_response" where
  "BookResponse d =
     (let t = BookBase_title (to_field (d_title d));
          a = BookBase_author (to_field (d_author d));
          i = BookBase_ISBN (to_field (d_ISBN d));
          g = BookBase_genre (to_field (d_genre d));
          y = BookBase_publication_year (to_field (d_publication_year d))
      in if isl t \<or> isl a \<or> isl i \<or> isl g \<or> isl y
         then Inl (errs ''title'' t @ errs ''author'' a @ errs ''ISBN'' i @ errs ''genre'' g
                   @ errs ''publication_year'' y)
         else Inr \<lparr>r_id = d_id d, r_title = projr t, r_author = projr a, r_ISBN = projr i,
                   r_genre = projr g, r_publication_year = projr y\<rparr>)"

text \<open>\<open>[BookResponse(**book) for book in books]\<close>: the first failure raises.\<close>

fun responses :: "doc list \<Rightarrow> (string \<times> verr) list + book_response list" where
  "responses [] = Inr []"
| "responses (b # bs) =
     (case BookResponse b of
        Inl e \<Rightarrow> Inl e
      | Inr r \<Rightarrow> (case responses bs of Inl e \<Rightarrow> Inl e | Inr rs \<Rightarrow> Inr (r # rs)))"

text \<open>\<open>book.dict()\<close> as \<open>insert_one\<close> stores it, under the \<open>_id\<close> the driver generated.\<close>

definition book_dict :: "string \<Rightarrow> book_create \<Rightarrow> doc" where
  "book_dict new_id book =
     \<lparr>d_id = new_id, d_title = Some (b_title book), d_author = Some (b_author book),
      d_ISBN = Some (b_ISBN book), d_genre = Some (b_genre book),
      d_publication_year = Some (b_publication_year book)\<rparr>"

text \<open>
  \<open>create_book\<close>. \<open>new_id\<close> is the \<open>ObjectId\<close> the driver generates for the new
  document. Every handler returns its response or the \<open>HTTPException\<close> it raised,
  the writing ones with the handle as they leave it.
\<close>

definition create_book :: "string \<Rightarrow> book_create \<Rightarrow> db \<Rightarrow> (http_error + book_response) \<times> db" where
  "create_book new_id book db =
     (case db of
        Unreachable \<Rightarrow> (Inl (HTTPException 500 ''Error creating book''), db)
      | Connected docs \<Rightarrow>
          (case find_one (\<lambda>d. d_ISBN d = Some (b_ISBN book)) docs of
             Some existing_book \<Rightarrow>
               (Inl (HTTPException 400 ''Book with this ISBN already exists''), db)
           | None \<Rightarrow>
               (case insert_one (book_dict new_id book) docs of
                  Inl e \<Rightarrow> (Inl (HTTPException 500 ''Error creating book''), db)
                | Inr docs' \<Rightarrow>
                    (case find_one (\<lambda>d. d_id d = new_id) docs' of
                       None \<Rightarrow> (Inl (HTTPException 500 ''Error creating book''), Connected docs')
                     | Some created_book \<Rightarrow>
                         (case BookResponse created_book of
                            Inl e \<Rightarrow> (Inl (HTTPException 500 ''Error creating book''), Connected docs')
                          | Inr r \<Rightarrow> (Inr r, Connected docs'))))))"

definition get_book :: "string \<Rightarrow> db \<Rightarrow> http_error + book_response" where
  "get_book book_id db =
     (if \<not> ObjectId_is_valid book_id then Inl (HTTPException 400 ''Invalid book ID format'')
      else case db of
        Unreachable \<Rightarrow> Inl (HTTPException 500 ''Error retrieving book'')
      | Connected docs \<Rightarrow>
          (case find_one (\<lambda>d. d_id d = ObjectId book_id) docs of
             None \<Rightarrow> Inl (HTTPException 404 ''Book not found'')
           | Some book \<Rightarrow>
               (case BookResponse book of
                  Inl e \<Rightarrow> Inl (HTTPException 500 ''Error retrieving book'')
                | Inr r \<Rightarrow> Inr r)))"

text \<open>\<open>not update_data\<close>: the dict of the fields that were set is empty.\<close>

definition no_fields :: "book_update \<Rightarrow> bool" where
  "no_fields u =
     (u_title u = Unset \<and> u_author u = Unset \<and> u_ISBN u = Unset \<and> u_genre u = Unset
      \<and> u_publication_year u = Unset)"

text \<open>\<open>update_data[k]\<close> for a key that is in the dict.\<close>

definition field_value :: "'a field \<Rightarrow> 'a option" where
  "field_value f = (case f of Unset \<Rightarrow> None | Null \<Rightarrow> None | Val v \<Rightarrow> Some v)"

definition update_book :: "string \<Rightarrow> book_update \<Rightarrow> db \<Rightarrow> (http_error + book_response) \<times> db" where
  "update_book book_id book_update db =
     (if \<not> ObjectId_is_valid book_id
      then (Inl (HTTPException 400 ''Invalid book ID format''), db)
      else case db of
        Unreachable \<Rightarrow> (Inl (HTTPException 500 ''Error updating book''), db)
      | Connected docs \<Rightarrow>
          (case find_one (\<lambda>d. d_id d = ObjectId book_id) docs of
             None \<Rightarrow> (Inl (HTTPException 404 ''Book not found''), db)
           | Some existing_book \<Rightarrow>
               if u_ISBN book_update \<noteq> Unset \<and>
                  find_one (\<lambda>d. d_ISBN d = field_value (u_ISBN book_update)
                                \<and> d_id d \<noteq> ObjectId book_id) docs \<noteq> None
               then (Inl (HTTPException 400 ''Another book with this ISBN already exists''), db)
               else if no_fields book_update
               then (Inl (HTTPException 400 ''No fields to update''), db)
               else
                 (case update_one (ObjectId book_id) book_update docs of
                    Inl e \<Rightarrow> (Inl (HTTPException 500 ''Error updating book''), db)
                  | Inr (modified_count, docs') \<Rightarrow>
                      if modified_count = 0
                      then (Inl (HTTPException 400 ''No changes made to the book''), Connected docs')
                      else
                        (case find_one (\<lambda>d. d_id d = ObjectId book_id) docs' of
                           None \<Rightarrow> (Inl (HTTPException 500 ''Error updating book''), Connected docs')
                         | Some updated_book \<Rightarrow>
                             (case BookResponse updated_book of
                                Inl e \<Rightarrow>
                                  (Inl (HTTPException 500 ''Error updating book''), Connected docs')
                              | Inr r \<Rightarrow> (Inr r, Connected docs'))))))"

text \<open>
  The request as the framework hands it over: a body that does not validate is answered
  with status 422 and the handler is not called.
\<close>

definition post_books :: "string \<Rightarrow> payload \<Rightarrow> db \<Rightarrow> (http_error + book_response) \<times> db" where
  "post_books new_id body db =
     (case BookCreate body of
        Inl e \<Rightarrow> (Inl (HTTPException 422 ''Unprocessable Entity''), db)
      | Inr book \<Rightarrow> create_book new_id book db)"

definition put_books :: "string \<Rightarrow> payload \<Rightarrow> db \<Rightarrow> (http_error + book_response) \<times> db" where
  "put_books book_id body db =
     (case BookUpdate body of
        Inl e \<Rightarrow> (Inl (HTTPException 422 ''Unprocessable Entity''), db)
      | Inr book_update \<Rightarrow> update_book book_id book_update db)"

text \<open>\<open>skip: Query(0, ge=0)\<close> and \<open>limit: Query(10, ge=1, le=100)\<close>.\<close>

definition paging_ok :: "int \<Rightarrow> int \<Rightarrow> bool" where
  "paging_ok skip limit = (0 \<le> skip \<and> 1 \<le> limit \<and> limit \<le> 100)"

text \<open>\<open>find(q).skip(skip).limit(limit)\<close>, read with \<open>to_list(length=limit)\<close>.\<close>

definition page :: "int \<Rightarrow> int \<Rightarrow> doc list \<Rightarrow> doc list" where
  "page skip limit docs = take (nat limit) (drop (nat skip) docs)"


text \<open>
  \<open>filter_books\<close>. \<open>filter_dict\<close> is the pair of the two conditions; \<open>if genre:\<close> and
  \<open>if publication_year:\<close> are false for \<open>None\<close>, for the empty string and for 0.
\<close>

definition genre_condition :: "string option \<Rightarrow> string option" where
  "genre_condition genre = (case genre of None \<Rightarrow> None | Some g \<Rightarrow> if g = [] then None else Some g)"

definition year_condition :: "int option \<Rightarrow> int option" where
  "year_condition y = (case y of None \<Rightarrow> None | Some n \<Rightarrow> if n = 0 then None else Some n)"

definition filter_books ::
  "(string \<Rightarrow> (string \<Rightarrow> bool) option) \<Rightarrow> string option \<Rightarrow> int option \<Rightarrow> int \<Rightarrow> int \<Rightarrow> db
     \<Rightarrow> http_error + book_response list"
where
  "filter_books pcre genre publication_year skip limit db =
     (if (case publication_year of None \<Rightarrow> False | Some y \<Rightarrow> y < 1000 \<or> 2024 < y)
         \<or> \<not> paging_ok skip limit
      then Inl (HTTPException 422 ''Unprocessable Entity'')
      else if genre_condition genre = None \<and> year_condition publication_year = None
      then Inl (HTTPException 400 ''At least one filter parameter is required'')
      else case db of
        Unreachable \<Rightarrow> Inl (HTTPException 500 ''Error filtering books'')
      | Connected docs \<Rightarrow>
          (case (case genre_condition genre of
                   None \<Rightarrow> Some (\<lambda>d. True)
                 | Some g \<Rightarrow> map_option (\<lambda>m d. field_matches m (d_genre d)) (regex_i pcre g)) of
             None \<Rightarrow> Inl (HTTPException 500 ''Error filtering books'')
           | Some genre_ok \<Rightarrow>
               (case responses
                       (page skip limit
                          (filter (\<lambda>d. genre_ok d \<and>
                                       (case year_condition publication_year of
                                          None \<Rightarrow> True
                                        | Some y \<Rightarrow> d_publication_year d = Some y)) docs)) of
                  Inl e \<Rightarrow> Inl (HTTPException 500 ''Error filtering books'')
                | Inr rs \<Rightarrow> Inr rs)))"

text \<open>
  \<open>count_books_by_genre\<close>. \<open>$group\<close> by \<open>$genre\<close> with \<open>{"$sum": 1}\<close>: one group for
  each genre, a missing genre under the key \<open>null\<close>. The store fixes neither the order
  of the groups nor, after \<open>$sort\<close> by descending count, the order of groups of equal
  count; the model lists groups in the order of their first document and sorts stably.
\<close>

fun group_add :: "string option \<Rightarrow> (string option \<times> nat) list \<Rightarrow> (string option \<times> nat) list" where
  "group_add k [] = [(k, 1)]"
| "group_add k ((k', n) # gs) = (if k = k' then (k', n + 1) # gs else (k', n) # group_add k gs)"

definition group_by_genre :: "doc list \<Rightarrow> (string option \<times> nat) list" where
  "group_by_genre docs = foldl (\<lambda>gs d. group_add (d_genre d) gs) [] docs"

fun insert_desc :: "(string option \<times> nat) \<Rightarrow> (string option \<times> nat) list \<Rightarrow> (string option \<times> nat) list" where
  "insert_desc x [] = [x]"
| "insert_desc x (y # ys) = (if snd y \<le> snd x then x # y # ys else y # insert_desc x ys)"

definition sort_count_desc :: "(string option \<times> nat) list \<Rightarrow> (string option \<times> nat) list" where
  "sort_count_desc gs = foldr insert_desc gs []"

text \<open>\<open>result[k] = v\<close> on a dict, which keeps its keys in the order of their insertion.\<close>

fun dict_set :: "string \<Rightarrow> nat \<Rightarrow> (string \<times> nat) list \<Rightarrow> (string \<times> nat) list" where
  "dict_set k v [] = [(k, v)]"
| "dict_set k v ((k', v') # r) = (if k = k' then (k', v) # r else (k', v') # dict_set k v r)"

text \<open>\<open>item["_id"] if item["_id"] else "Unknown"\<close>: \<open>None\<close> and the empty string are false.\<close>

definition genre_key :: "string option \<Rightarrow> string" where
  "genre_key g = (case g of None \<Rightarrow> ''Unknown'' | Some s \<Rightarrow> if s = [] then ''Unknown'' else s)"

definition count_books_by_genre :: "db \<Rightarrow> http_error + (string \<times> nat) list" where
  "count_books_by_genre db =
     (case db of
        Unreachable \<Rightarrow> Inl (HTTPException 500 ''Error counting books by genre'')
      | Connected docs \<Rightarrow>
          Inr (foldl (\<lambda>result item. dict_set (genre_key (fst item)) (snd item) result) []
                 (sort_count_desc (group_by_genre docs))))"

section \<open>The specification's notions\<close>




text \<open>
  The ISBN rule as the specification words it: strip hyphens and spaces; length 10 with
  nine digits and then a digit or \<open>X\<close>/\<open>x\<close>, or length 13 with digits only. A digit
  is one of the ten characters 0 to 9.
\<close>

definition spec_digit :: "char \<Rightarrow> bool" where
  "spec_digit c = (c \<in> set ''0123456789'')"

definition spec_isbn_ok :: "string \<Rightarrow> bool" where
  "spec_isbn_ok v =
     (let s = filter (\<lambda>c. c \<noteq> CHR ''-'' \<and> c \<noteq> CHR '' '') v in
      (length s = 10 \<and> list_all spec_digit (take 9 s)
         \<and> (spec_digit (s ! 9) \<or> s ! 9 = CHR ''X'' \<or> s ! 9 = CHR ''x''))
      \<or> (length s = 13 \<and> list_all spec_digit s))"

text \<open>
  The characters below 256, other than 0 to 9, that \<open>str.isdigit\<close> counts as digits: the
  superscripts two, three and one. A string has no other digits when none of them
  occurs in it.
\<close>

definition other_digit :: "char \<Rightarrow> bool" where
  "other_digit c = (c \<in> set [CHR 0xB2, CHR 0xB3, CHR 0xB9])"

definition no_other_digits :: "string \<Rightarrow> bool" where
  "no_other_digits v = list_all (\<lambda>c. \<not> other_digit c) v"

text \<open>
  What \<open>validate_isbn\<close> tests, gathered in one formula for the proofs: the shape above
  with the digits of \<open>str.isdigit\<close>.
\<close>

definition isbn_shape :: "string \<Rightarrow> bool" where
  "isbn_shape v =
     (let s = filter (\<lambda>c. c \<noteq> CHR ''-'' \<and> c \<noteq> CHR '' '') v in
      (length s = 10 \<and> list_all isdigit_char (take 9 s)
         \<and> (isdigit_char (s ! 9) \<or> s ! 9 = CHR ''X'' \<or> s ! 9 = CHR ''x''))
      \<or> (length s = 13 \<and> list_all isdigit_char s))"

text \<open>
  What an update may change. Between a stored book \<open>x\<close> and the same book \<open>y\<close> after an
  update of the book \<open>oid\<close> with payload \<open>u\<close>: the id stays, any other book stays as it
  was, and a field absent from the payload keeps its value.
\<close>

definition kept_by_update :: "string \<Rightarrow> book_update \<Rightarrow> doc \<Rightarrow> doc \<Rightarrow> bool" where
  "kept_by_update oid u x y =
     (d_id y = d_id x
      \<and> (d_id x \<noteq> oid \<longrightarrow> y = x)
      \<and> (u_title u = Unset \<longrightarrow> d_title y = d_title x)
      \<and> (u_author u = Unset \<longrightarrow> d_author y = d_author x)
      \<and> (u_ISBN u = Unset \<longrightarrow> d_ISBN y = d_ISBN x)
      \<and> (u_genre u = Unset \<longrightarrow> d_genre y = d_genre x)
      \<and> (u_publication_year u = Unset \<longrightarrow> d_publication_year y = d_publication_year x))"

text \<open>The fields the payload gives a value hold that value.\<close>

definition written_field :: "'a field \<Rightarrow> 'a option \<Rightarrow> bool" where
  "written_field f stored = (case f of Val v \<Rightarrow> stored = Some v | Null \<Rightarrow> True | Unset \<Rightarrow> True)"

definition written_by_update :: "book_update \<Rightarrow> doc \<Rightarrow> bool" where
  "written_by_update u y =
     (written_field (u_title u) (d_title y)
      \<and> written_field (u_author u) (d_author y)
      \<and> written_field (u_ISBN u) (d_ISBN y)
      \<and> written_field (u_genre u) (d_genre y)
      \<and> written_field (u_publication_year u) (d_publication_year y))"

text \<open>A payload in which no field is an explicit \<open>null\<close>.\<close>

definition no_null :: "book_update \<Rightarrow> bool" where
  "no_null u =
     (u_title u \<noteq> Null \<and> u_author u \<noteq> Null \<and> u_ISBN u \<noteq> Null \<and> u_genre u \<noteq> Null
      \<and> u_publication_year u \<noteq> Null)"

text \<open>
  What a round trip shows: the fetched entity \<open>r\<close> agrees with the entity \<open>r0\<close> fetched
  before the update in the id and in every field absent from the payload.
\<close>

definition shown_unchanged :: "book_update \<Rightarrow> book_response \<Rightarrow> book_response \<Rightarrow> bool" where
  "shown_unchanged u r0 r =
     (r_id r = r_id r0
      \<and> (u_title u = Unset \<longrightarrow> r_title r = r_title r0)
      \<and> (u_author u = Unset \<longrightarrow> r_author r = r_author r0)
      \<and> (u_ISBN u = Unset \<longrightarrow> r_ISBN r = r_ISBN r0)
      \<and> (u_genre u = Unset \<longrightarrow> r_genre r = r_genre r0)
      \<and> (u_publication_year u = Unset \<longrightarrow> r_publication_year r = r_publication_year r0))"

section \<open>Example data\<close>

text \<open>A stored book, a request body for a second one, and the model it validates to.\<close>

definition ex_id :: string where
  "ex_id = ''507f1f77bcf86cd799439011''"

definition ex_doc :: doc where
  "ex_doc = \<lparr>d_id = ''507f1f77bcf86cd799439011'', d_title = Some ''Dune'',
             d_author = Some ''Frank Herbert'', d_ISBN = Some ''0306406152'',
             d_genre = Some ''Sci-Fi'', d_publication_year = Some 1965\<rparr>"

definition ex_new_id :: string where
  "ex_new_id = ''507f1f77bcf86cd799439012''"

definition ex_payload :: payload where
  "ex_payload = \<lparr>p_title = Val ''  Emma '', p_author = Val ''Jane Austen'',
                 p_ISBN = Val ''0-306-40615-2'', p_genre = Val '' Fiction'',
                 p_publication_year = Val 1815\<rparr>"

definition ex_book :: book_create where
  "ex_book = \<lparr>b_title = ''Emma'', b_author = ''Jane Austen'', b_ISBN = ''0-306-40615-2'',
              b_genre = ''Fiction'', b_publication_year = 1815\<rparr>"

definition ex_response :: book_response where
  "ex_response = \<lparr>r_id = ''507f1f77bcf86cd799439012'', r_title = ''Emma'',
                  r_author = ''Jane Austen'', r_ISBN = ''0-306-40615-2'', r_genre = ''Fiction'',
                  r_publication_year = 1815\<rparr>"

definition no_update :: book_update where
  "no_update = \<lparr>u_title = Unset, u_author = Unset, u_ISBN = Unset, u_genre = Unset,
                u_publication_year = Unset\<rparr>"

text \<open>
  A well-formed ISBN-10 written with a hyphen after every digit, ten superscript twos,
  and a genre followed by 44 spaces.
\<close>

definition ex_long_isbn :: string where
  "ex_long_isbn = ''0-3-0-6-4-0-6-1-5-2''"

definition ex_superscript_isbn :: string where
  "ex_superscript_isbn = replicate 10 (CHR 0xB2)"

definition ex_padded_genre :: string where
  "ex_padded_genre = ''Fiction'' @ replicate 44 (CHR '' '')"

text \<open>
  Request bodies of an update: a new ISBN, a genre given as \<open>null\<close>, and a new title with
  blanks around it.
\<close>

definition ex_put_isbn :: payload where
  "ex_put_isbn = \<lparr>p_title = Unset, p_author = Unset, p_ISBN = Val ''0 306 40615 x'',
                  p_genre = Unset, p_publication_year = Unset\<rparr>"

definition ex_put_null_genre :: payload where
  "ex_put_null_genre = \<lparr>p_title = Unset, p_author = Unset, p_ISBN = Unset, p_genre = Null,
                        p_publication_year = Unset\<rparr>"

definition ex_put_title :: payload where
  "ex_put_title = \<lparr>p_title = Val '' Dune Messiah  '', p_author = Unset, p_ISBN = Unset,
                   p_genre = Unset, p_publication_year = Unset\<rparr>"

text \<open>
  Two collections: two books of genre ``Unknown'' and one book with no genre; and three
  books of genre ``Fiction'', one of genre ``Sci-Fi'' and one with no genre.
\<close>

definition ex_unknown_docs :: "doc list" where
  "ex_unknown_docs =
     [ex_doc\<lparr>d_genre := Some ''Unknown''\<rparr>,
      \<lparr>d_id = ''507f1f77bcf86cd799439012'', d_title = Some ''Emma'',
       d_author = Some ''Jane Austen'', d_ISBN = Some ''0-306-40615-2'',
       d_genre = Some ''Unknown'', d_publication_year = Some 1815\<rparr>,
      \<lparr>d_id = ''507f1f77bcf86cd799439013'', d_title = Some ''Ulysses'',
       d_author = Some ''James Joyce'', d_ISBN = Some ''9780743273565'',
       d_genre = None, d_publication_year = Some 1922\<rparr>]"

definition ex_claim_docs :: "doc list" where
  "ex_claim_docs =
     [ex_doc\<lparr>d_genre := Some ''Fiction''\<rparr>,
      ex_doc\<lparr>d_id := ''507f1f77bcf86cd799439012'', d_ISBN := Some ''0306406153'',
              d_genre := Some ''Sci-Fi''\<rparr>,
      ex_doc\<lparr>d_id := ''507f1f77bcf86cd799439013'', d_ISBN := Some ''0306406154'',
              d_genre := Some ''Fiction''\<rparr>,
      ex_doc\<lparr>d_id := ''507f1f77bcf86cd799439014'', d_ISBN := Some ''0306406155'',
              d_genre := None\<rparr>,
      ex_doc\<lparr>d_id := ''507f1f77bcf86cd799439015'', d_ISBN := Some ''0306406156'',
              d_genre := Some ''Fiction''\<rparr>]"

section \<open>Properties of the string primitives\<close>

lemma strip_Nil: "strip [] = []"
  by (simp add: strip_def)

lemma strip_prefix_form: "\<exists>w. dropWhile isspace s = strip s @ w"
proof -
  have "rev (dropWhile isspace s) =
        takeWhile isspace (rev (dropWhile isspace s)) @ dropWhile isspace (rev (dropWhile isspace s))"
    by simp
  then have "dropWhile isspace s =
        rev (dropWhile isspace (rev (dropWhile isspace s))) @ rev (takeWhile isspace (rev (dropWhile isspace s)))"
    by (metis rev_append rev_rev_ident)
  then show ?thesis unfolding strip_def by blast
qed

lemma strip_hd: "strip s \<noteq> [] \<Longrightarrow> \<not> isspace (hd (strip s))"
proof -
  assume ne: "strip s \<noteq> []"
  obtain w where w: "dropWhile isspace s = strip s @ w" using strip_prefix_form by blast
  with ne have "hd (dropWhile isspace s) = hd (strip s)" by simp
  moreover have "dropWhile isspace s \<noteq> []" using w ne by simp
  ultimately show ?thesis using hd_dropWhile [of isspace s] by simp
qed

lemma dropWhile_strip: "dropWhile isspace (strip s) = strip s"
  using strip_hd [of s] by (cases "strip s") auto

lemma strip_idem: "strip (strip s) = strip s"
proof -
  have "strip (strip s) = rev (dropWhile isspace (rev (strip s)))"
    by (simp add: strip_def [of "strip s"] dropWhile_strip)
  also have "rev (strip s) = dropWhile isspace (rev (dropWhile isspace s))"
    by (simp add: strip_def)
  also have "rev (dropWhile isspace (dropWhile isspace (rev (dropWhile isspace s)))) = strip s"
    by (simp add: strip_def dropWhile_idem)
  finally show ?thesis .
qed

lemma length_strip_le: "length (strip s) \<le> length s"
proof -
  have "length (strip s) \<le> length (dropWhile isspace s)"
    unfolding strip_def by (simp add: length_dropWhile_le order_trans [OF length_dropWhile_le])
  also have "\<dots> \<le> length s" by (rule length_dropWhile_le)
  finally show ?thesis .
qed

lemma strip_nonempty_length: "strip s \<noteq> [] \<Longrightarrow> 1 \<le> length s"
  by (cases s) (auto simp: strip_def)

section \<open>Properties of the validation layer\<close>

lemma stripped_chars: "replace_with_empty (CHR '' '') (replace_with_empty (CHR ''-'') v)
   = filter (\<lambda>c. c \<noteq> CHR ''-'' \<and> c \<noteq> CHR '' '') v"
  by (simp add: replace_with_empty_def conj_commute)

lemma isbn10_shape:
  assumes "length s = 10"
  shows "(isdigit (butlast s) \<and> (isdigit_char (last s) \<or> upper_is_X (last s)))
     \<longleftrightarrow> (list_all isdigit_char (take 9 s) \<and> (isdigit_char (s ! 9) \<or> s ! 9 = CHR ''X'' \<or> s ! 9 = CHR ''x''))"
proof -
  from assms have ne: "s \<noteq> []" by auto
  have b: "butlast s = take 9 s" using assms by (simp add: butlast_conv_take)
  have l: "last s = s ! 9" using assms ne by (simp add: last_conv_nth)
  have "take 9 s \<noteq> []" using assms by auto
  then show ?thesis by (auto simp: isdigit_def b l upper_is_X_def)
qed

lemma BookBase_validate_isbn_iff:
  "BookBase_validate_isbn v = Inr w \<longleftrightarrow> isbn_shape v \<and> w = v"
proof -
  let ?s = "filter (\<lambda>c. c \<noteq> CHR ''-'' \<and> c \<noteq> CHR '' '') v"
  show ?thesis
  proof (cases "length ?s = 10")
    case True
    then show ?thesis
      using isbn10_shape [OF True]
      by (auto simp: BookBase_validate_isbn_def isbn_shape_def stripped_chars Let_def)
  next
    case False
    then show ?thesis
      by (auto simp: BookBase_validate_isbn_def isbn_shape_def stripped_chars Let_def isdigit_def)
  qed
qed

lemma BookUpdate_validate_isbn_Some:
  "BookUpdate_validate_isbn (Some v) = map_sum id Some (BookBase_validate_isbn v)"
  by (simp add: BookUpdate_validate_isbn_def BookBase_validate_isbn_def Let_def)

lemma isbn_shape_length: "isbn_shape v \<Longrightarrow> 10 \<le> length v"
proof -
  assume "isbn_shape v"
  then have "10 \<le> length (filter (\<lambda>c. c \<noteq> CHR ''-'' \<and> c \<noteq> CHR '' '') v)"
    by (auto simp: isbn_shape_def Let_def)
  then show ?thesis using length_filter_le [of "\<lambda>c. c \<noteq> CHR ''-'' \<and> c \<noteq> CHR '' ''" v] by linarith
qed


lemma BookBase_strings_iff:
  "and_then (constr_length 1 hi v) BookBase_validate_strings = Inr w
     \<longleftrightarrow> 1 \<le> length v \<and> length v \<le> hi \<and> strip v \<noteq> [] \<and> w = strip v"
  by (cases v) (auto simp: and_then_def constr_length_def BookBase_validate_strings_def strip_Nil)

lemma BookBase_strings_again:
  assumes "and_then (constr_length 1 hi v) BookBase_validate_strings = Inr w"
  shows "and_then (constr_length 1 hi w) BookBase_validate_strings = Inr w"
proof -
  from assms have v: "length v \<le> hi" "strip v \<noteq> []" "w = strip v"
    unfolding BookBase_strings_iff by simp_all
  have "length w \<le> hi" using v length_strip_le [of v] by simp
  moreover have "strip w = w" using v by (simp add: strip_idem)
  moreover have "1 \<le> length w" using v by (simp add: Suc_le_eq)
  ultimately show ?thesis using v unfolding BookBase_strings_iff by simp
qed

lemma BookBase_title_iff:
  "BookBase_title (Val v) = Inr w \<longleftrightarrow> 1 \<le> length v \<and> length v \<le> 200 \<and> strip v \<noteq> [] \<and> w = strip v"
  using BookBase_strings_iff [of _ v w]
  by (simp add: BookBase_title_def required_def and_then_def [of "Inr v"])

lemma BookBase_author_iff:
  "BookBase_author (Val v) = Inr w \<longleftrightarrow> 1 \<le> length v \<and> length v \<le> 100 \<and> strip v \<noteq> [] \<and> w = strip v"
  using BookBase_strings_iff [of _ v w]
  by (simp add: BookBase_author_def required_def and_then_def [of "Inr v"])

lemma BookBase_genre_iff:
  "BookBase_genre (Val v) = Inr w \<longleftrightarrow> 1 \<le> length v \<and> length v \<le> 50 \<and> strip v \<noteq> [] \<and> w = strip v"
  using BookBase_strings_iff [of _ v w]
  by (simp add: BookBase_genre_def required_def and_then_def [of "Inr v"])

lemma BookBase_ISBN_iff:
  "BookBase_ISBN (Val v) = Inr w \<longleftrightarrow> length v \<le> 17 \<and> isbn_shape v \<and> w = v"
  using isbn_shape_length [of v]
  by (auto simp: BookBase_ISBN_def required_def and_then_def constr_length_def
      BookBase_validate_isbn_iff)

lemma BookBase_publication_year_iff:
  "BookBase_publication_year (Val y) = Inr w \<longleftrightarrow> 1000 \<le> y \<and> y \<le> 2024 \<and> w = y"
  by (auto simp: BookBase_publication_year_def required_def and_then_def conint_def)

lemma required_Inr: "required f = Inr v \<longleftrightarrow> f = Val v"
  by (cases f) (auto simp: required_def)

lemma BookBase_title_Val: "BookBase_title f = Inr w \<Longrightarrow> \<exists>v. f = Val v"
  by (cases f) (simp_all add: BookBase_title_def required_def and_then_def)

lemma BookBase_author_Val: "BookBase_author f = Inr w \<Longrightarrow> \<exists>v. f = Val v"
  by (cases f) (simp_all add: BookBase_author_def required_def and_then_def)

lemma BookBase_genre_Val: "BookBase_genre f = Inr w \<Longrightarrow> \<exists>v. f = Val v"
  by (cases f) (simp_all add: BookBase_genre_def required_def and_then_def)

lemma BookBase_ISBN_Val: "BookBase_ISBN f = Inr w \<Longrightarrow> \<exists>v. f = Val v"
  by (cases f) (simp_all add: BookBase_ISBN_def required_def and_then_def)

lemma BookBase_publication_year_Val: "BookBase_publication_year f = Inr w \<Longrightarrow> \<exists>v. f = Val v"
  by (cases f) (simp_all add: BookBase_publication_year_def required_def and_then_def)

lemma BookUpdate_strings_iff:
  "optional_str 1 hi BookUpdate_validate_strings (Val v) = Inr f
     \<longleftrightarrow> 1 \<le> length v \<and> length v \<le> hi \<and> strip v \<noteq> [] \<and> f = Val (strip v)"
  by (cases v) (auto simp: optional_str_def and_then_def constr_length_def
      BookUpdate_validate_strings_def to_field_def strip_Nil)

lemma BookUpdate_ISBN_iff:
  "BookUpdate_ISBN (Val v) = Inr f \<longleftrightarrow> length v \<le> 17 \<and> isbn_shape v \<and> f = Val v"
proof -
  have "BookUpdate_ISBN (Val v) =
        (case BookBase_ISBN (Val v) of Inl e \<Rightarrow> Inl e | Inr w \<Rightarrow> Inr (Val w))"
    by (simp add: BookUpdate_ISBN_def BookBase_ISBN_def optional_str_def required_def
        and_then_def BookUpdate_validate_isbn_Some to_field_def map_sum_def
        split: sum.splits)
  then show ?thesis
    using BookBase_ISBN_iff [of v]
    by (cases "BookBase_ISBN (Val v)") auto
qed

lemma BookUpdate_title_iff:
  "BookUpdate_title (Val v) = Inr f
     \<longleftrightarrow> 1 \<le> length v \<and> length v \<le> 200 \<and> strip v \<noteq> [] \<and> f = Val (strip v)"
  unfolding BookUpdate_title_def by (rule BookUpdate_strings_iff)

lemma BookUpdate_author_iff:
  "BookUpdate_author (Val v) = Inr f
     \<longleftrightarrow> 1 \<le> length v \<and> length v \<le> 100 \<and> strip v \<noteq> [] \<and> f = Val (strip v)"
  unfolding BookUpdate_author_def by (rule BookUpdate_strings_iff)

lemma BookUpdate_genre_iff:
  "BookUpdate_genre (Val v) = Inr f
     \<longleftrightarrow> 1 \<le> length v \<and> length v \<le> 50 \<and> strip v \<noteq> [] \<and> f = Val (strip v)"
  unfolding BookUpdate_genre_def by (rule BookUpdate_strings_iff)

section \<open>Properties of the store and of the handlers\<close>

lemma lower_hex_fixed: "is_lower_hex_char c \<Longrightarrow> lower_char c = c \<and> is_hex_char c"
  by (auto simp: is_lower_hex_char_def lower_char_def is_hex_char_def)

lemma oid_wf_valid: "oid_wf i \<Longrightarrow> ObjectId_is_valid i"
  by (auto simp: oid_wf_def ObjectId_is_valid_def list_all_iff lower_hex_fixed)

lemma oid_wf_canonical: "oid_wf i \<Longrightarrow> ObjectId i = i"
  by (auto simp: oid_wf_def ObjectId_def lower_def list_all_iff lower_hex_fixed intro: map_idI)

lemma isl_Inr_conv: "\<not> isl x \<Longrightarrow> x = Inr (projr x)"
  by (cases x) auto

lemma BookCreate_fields:
  assumes "BookCreate p = Inr b"
  shows "BookBase_title (p_title p) = Inr (b_title b)"
    and "BookBase_author (p_author p) = Inr (b_author b)"
    and "BookBase_ISBN (p_ISBN p) = Inr (b_ISBN b)"
    and "BookBase_genre (p_genre p) = Inr (b_genre b)"
    and "BookBase_publication_year (p_publication_year p) = Inr (b_publication_year b)"
  using assms
  by (auto simp: BookCreate_def Let_def split: if_splits dest: isl_Inr_conv)

lemma BookUpdate_fields:
  assumes "BookUpdate p = Inr u"
  shows "BookUpdate_title (p_title p) = Inr (u_title u)"
    and "BookUpdate_author (p_author p) = Inr (u_author u)"
    and "BookUpdate_ISBN (p_ISBN p) = Inr (u_ISBN u)"
    and "BookUpdate_genre (p_genre p) = Inr (u_genre u)"
    and "BookUpdate_publication_year (p_publication_year p) = Inr (u_publication_year u)"
  using assms
  by (auto simp: BookUpdate_def Let_def split: if_splits dest: isl_Inr_conv)

lemma BookResponse_fields:
  assumes "BookResponse d = Inr r"
  shows "r_id r = d_id d"
    and "BookBase_title (to_field (d_title d)) = Inr (r_title r)"
    and "BookBase_author (to_field (d_author d)) = Inr (r_author r)"
    and "BookBase_ISBN (to_field (d_ISBN d)) = Inr (r_ISBN r)"
    and "BookBase_genre (to_field (d_genre d)) = Inr (r_genre r)"
    and "BookBase_publication_year (to_field (d_publication_year d)) = Inr (r_publication_year r)"
  using assms
  by (auto simp: BookResponse_def Let_def split: if_splits dest: isl_Inr_conv)

lemma BookResponse_intro:
  assumes "BookBase_title (to_field (d_title d)) = Inr t"
    and "BookBase_author (to_field (d_author d)) = Inr a"
    and "BookBase_ISBN (to_field (d_ISBN d)) = Inr i"
    and "BookBase_genre (to_field (d_genre d)) = Inr g"
    and "BookBase_publication_year (to_field (d_publication_year d)) = Inr y"
  shows "BookResponse d = Inr \<lparr>r_id = d_id d, r_title = t, r_author = a, r_ISBN = i,
                              r_genre = g, r_publication_year = y\<rparr>"
  using assms by (simp add: BookResponse_def Let_def)

lemma BookBase_title_again:
  assumes "BookBase_title f = Inr w"
  shows "BookBase_title (Val w) = Inr w"
proof -
  obtain v where "f = Val v" using BookBase_title_Val [OF assms] by blast
  with assms have v: "length v \<le> 200" "strip v \<noteq> []" "w = strip v"
    by (simp_all add: BookBase_title_iff)
  have "length w \<le> 200" using v length_strip_le [of v] by simp
  moreover have "strip w = w" using v by (simp add: strip_idem)
  moreover have "1 \<le> length w" using v by (simp add: Suc_le_eq)
  ultimately show ?thesis using v by (simp add: BookBase_title_iff)
qed

lemma BookBase_author_again:
  assumes "BookBase_author f = Inr w"
  shows "BookBase_author (Val w) = Inr w"
proof -
  obtain v where "f = Val v" using BookBase_author_Val [OF assms] by blast
  with assms have v: "length v \<le> 100" "strip v \<noteq> []" "w = strip v"
    by (simp_all add: BookBase_author_iff)
  have "length w \<le> 100" using v length_strip_le [of v] by simp
  moreover have "strip w = w" using v by (simp add: strip_idem)
  moreover have "1 \<le> length w" using v by (simp add: Suc_le_eq)
  ultimately show ?thesis using v by (simp add: BookBase_author_iff)
qed

lemma BookBase_genre_again:
  assumes "BookBase_genre f = Inr w"
  shows "BookBase_genre (Val w) = Inr w"
proof -
  obtain v where "f = Val v" using BookBase_genre_Val [OF assms] by blast
  with assms have v: "length v \<le> 50" "strip v \<noteq> []" "w = strip v"
    by (simp_all add: BookBase_genre_iff)
  have "length w \<le> 50" using v length_strip_le [of v] by simp
  moreover have "strip w = w" using v by (simp add: strip_idem)
  moreover have "1 \<le> length w" using v by (simp add: Suc_le_eq)
  ultimately show ?thesis using v by (simp add: BookBase_genre_iff)
qed

lemma BookBase_ISBN_again: "BookBase_ISBN f = Inr w \<Longrightarrow> BookBase_ISBN (Val w) = Inr w"
  using BookBase_ISBN_Val [of f w] BookBase_ISBN_iff by auto

lemma BookBase_publication_year_again:
  "BookBase_publication_year f = Inr w \<Longrightarrow> BookBase_publication_year (Val w) = Inr w"
  using BookBase_publication_year_Val [of f w] BookBase_publication_year_iff by auto

lemma BookResponse_book_dict:
  assumes "BookCreate p = Inr b"
  shows "BookResponse (book_dict nid b) =
         Inr \<lparr>r_id = nid, r_title = b_title b, r_author = b_author b, r_ISBN = b_ISBN b,
              r_genre = b_genre b, r_publication_year = b_publication_year b\<rparr>"
proof -
  note f = BookCreate_fields [OF assms]
  have "BookResponse (book_dict nid b) =
         Inr \<lparr>r_id = d_id (book_dict nid b), r_title = b_title b, r_author = b_author b,
              r_ISBN = b_ISBN b, r_genre = b_genre b, r_publication_year = b_publication_year b\<rparr>"
    by (rule BookResponse_intro)
       (simp_all add: book_dict_def to_field_def BookBase_title_again [OF f(1)]
          BookBase_author_again [OF f(2)] BookBase_ISBN_again [OF f(3)]
          BookBase_genre_again [OF f(4)] BookBase_publication_year_again [OF f(5)])
  then show ?thesis by (simp add: book_dict_def)
qed

lemma find_None_list_ex: "find q docs = None \<longleftrightarrow> \<not> list_ex q docs"
  by (auto simp: find_None_iff list_ex_iff)

lemma find_append_fresh: "\<not> list_ex q docs \<Longrightarrow> q d \<Longrightarrow> find q (docs @ [d]) = Some d"
  by (induction docs) auto

lemma create_book_fresh:
  assumes "\<not> list_ex (\<lambda>d. d_ISBN d = Some (b_ISBN b)) docs"
    and "\<not> list_ex (\<lambda>d. d_id d = nid) docs"
    and "BookResponse (book_dict nid b) = Inr r"
  shows "create_book nid b (Connected docs) = (Inr r, Connected (docs @ [book_dict nid b]))"
proof -
  have pre: "find_one (\<lambda>d. d_ISBN d = Some (b_ISBN b)) docs = None"
    using assms(1) by (simp add: find_one_def find_None_list_ex)
  have "\<not> list_ex (\<lambda>x. d_id x = d_id (book_dict nid b) \<or> d_ISBN x = d_ISBN (book_dict nid b)) docs"
    using assms(1,2) by (auto simp: list_ex_iff book_dict_def)
  then have ins: "insert_one (book_dict nid b) docs = Inr (docs @ [book_dict nid b])"
    by (simp add: insert_one_def)
  have fnd: "find_one (\<lambda>d. d_id d = nid) (docs @ [book_dict nid b]) = Some (book_dict nid b)"
    unfolding find_one_def using assms(2) by (intro find_append_fresh) (simp_all add: book_dict_def)
  show ?thesis
    by (simp add: create_book_def pre ins fnd assms(3))
qed

lemma create_book_conflict:
  assumes "list_ex (\<lambda>d. d_ISBN d = Some (b_ISBN b)) docs"
  shows "create_book nid b (Connected docs) =
         (Inl (HTTPException 400 ''Book with this ISBN already exists''), Connected docs)"
proof -
  from assms obtain x where "find_one (\<lambda>d. d_ISBN d = Some (b_ISBN b)) docs = Some x"
    unfolding find_one_def using find_None_list_ex [of "\<lambda>d. d_ISBN d = Some (b_ISBN b)" docs]
    by (cases "find (\<lambda>d. d_ISBN d = Some (b_ISBN b)) docs") auto
  then show ?thesis by (simp add: create_book_def)
qed

lemma get_book_found:
  assumes "ObjectId_is_valid i"
    and "find_one (\<lambda>d. d_id d = ObjectId i) docs = Some d"
    and "BookResponse d = Inr r"
  shows "get_book i (Connected docs) = Inr r"
  using assms by (simp add: get_book_def)

lemma d_id_set_fields: "d_id (set_fields u d) = d_id d"
  by (simp add: set_fields_def)

lemma find_replace_first:
  "q d' \<Longrightarrow> find q (replace_first q d' docs) = (case find q docs of None \<Rightarrow> None | Some x \<Rightarrow> Some d')"
  by (induction docs) auto

lemma replace_first_absent: "find q docs = None \<Longrightarrow> replace_first q d' docs = docs"
  by (induction docs) (auto split: if_splits)

lemma replace_first_rel:
  assumes "find q docs = Some d" and "\<And>x. R x x" and "R d d'"
  shows "list_all2 R docs (replace_first q d' docs)"
  using assms(1)
proof (induction docs)
  case Nil
  then show ?case by simp
next
  case (Cons x xs)
  show ?case
  proof (cases "q x")
    case True
    with Cons.prems have "x = d" by simp
    with True show ?thesis using assms(2,3) by (simp add: list_all2_refl)
  next
    case False
    with Cons show ?thesis using assms(2) by simp
  qed
qed

lemma update_one_found:
  assumes "find (\<lambda>x. d_id x = oid) docs = Some d"
  shows "update_one oid u docs =
     (if set_fields u d = d then Inr (0, docs)
      else if d_ISBN (set_fields u d) \<noteq> d_ISBN d
              \<and> list_ex (\<lambda>x. d_id x \<noteq> oid \<and> d_ISBN x = d_ISBN (set_fields u d)) docs
      then Inl DuplicateKeyError
      else Inr (1, replace_first (\<lambda>x. d_id x = oid) (set_fields u d) docs))"
  using assms by (simp add: update_one_def Let_def)

lemma find_Some_id: "find (\<lambda>x. d_id x = oid) docs = Some d \<Longrightarrow> d_id d = oid"
  by (auto simp: find_Some_iff)

lemma update_book_found:
  assumes "ObjectId_is_valid i"
    and "find_one (\<lambda>x. d_id x = ObjectId i) docs = Some d"
  shows "update_book i u (Connected docs) =
     (if u_ISBN u \<noteq> Unset \<and>
         find_one (\<lambda>x. d_ISBN x = field_value (u_ISBN u) \<and> d_id x \<noteq> ObjectId i) docs \<noteq> None
      then (Inl (HTTPException 400 ''Another book with this ISBN already exists''), Connected docs)
      else if no_fields u
      then (Inl (HTTPException 400 ''No fields to update''), Connected docs)
      else if set_fields u d = d
      then (Inl (HTTPException 400 ''No changes made to the book''), Connected docs)
      else if d_ISBN (set_fields u d) \<noteq> d_ISBN d
              \<and> list_ex (\<lambda>x. d_id x \<noteq> ObjectId i \<and> d_ISBN x = d_ISBN (set_fields u d)) docs
      then (Inl (HTTPException 500 ''Error updating book''), Connected docs)
      else (case BookResponse (set_fields u d) of
              Inl e \<Rightarrow> (Inl (HTTPException 500 ''Error updating book''),
                        Connected (replace_first (\<lambda>x. d_id x = ObjectId i) (set_fields u d) docs))
            | Inr r \<Rightarrow> (Inr r,
                        Connected (replace_first (\<lambda>x. d_id x = ObjectId i) (set_fields u d) docs))))"
proof -
  from assms(2) have f: "find (\<lambda>x. d_id x = ObjectId i) docs = Some d"
    by (simp add: find_one_def)
  have idd: "d_id d = ObjectId i" using f by (rule find_Some_id)
  have after: "find_one (\<lambda>x. d_id x = ObjectId i)
                 (replace_first (\<lambda>x. d_id x = ObjectId i) (set_fields u d) docs)
               = Some (set_fields u d)"
    unfolding find_one_def by (simp add: find_replace_first d_id_set_fields idd f)
  show ?thesis
    by (simp add: update_book_def assms update_one_found [OF f] after)
qed

lemma update_book_absent:
  assumes "ObjectId_is_valid i"
    and "find_one (\<lambda>x. d_id x = ObjectId i) docs = None"
  shows "update_book i u (Connected docs) = (Inl (HTTPException 404 ''Book not found''), Connected docs)"
  using assms by (simp add: update_book_def)

lemma update_book_invalid:
  assumes "\<not> ObjectId_is_valid i"
  shows "update_book i u db = (Inl (HTTPException 400 ''Invalid book ID format''), db)"
  using assms by (simp add: update_book_def)

lemma update_book_success:
  assumes "update_book i u (Connected docs) = (Inr r, db')"
  shows "\<exists>d. ObjectId_is_valid i \<and> find_one (\<lambda>x. d_id x = ObjectId i) docs = Some d
            \<and> set_fields u d \<noteq> d
            \<and> db' = Connected (replace_first (\<lambda>x. d_id x = ObjectId i) (set_fields u d) docs)
            \<and> BookResponse (set_fields u d) = Inr r"
proof (cases "ObjectId_is_valid i")
  case False
  with assms show ?thesis by (simp add: update_book_invalid)
next
  case True
  show ?thesis
  proof (cases "find_one (\<lambda>x. d_id x = ObjectId i) docs")
    case None
    with True assms show ?thesis by (simp add: update_book_absent)
  next
    case (Some d)
    from assms show ?thesis
      unfolding update_book_found [OF True Some]
      using True Some by (auto split: if_splits sum.splits)
  qed
qed

lemma update_book_store:
  assumes "update_book i u (Connected docs) = (res, db')"
  shows "db' = Connected docs \<or>
         (\<exists>d. find_one (\<lambda>x. d_id x = ObjectId i) docs = Some d
             \<and> db' = Connected (replace_first (\<lambda>x. d_id x = ObjectId i) (set_fields u d) docs))"
proof (cases "ObjectId_is_valid i")
  case False
  with assms show ?thesis by (simp add: update_book_invalid)
next
  case True
  show ?thesis
  proof (cases "find_one (\<lambda>x. d_id x = ObjectId i) docs")
    case None
    with True assms show ?thesis by (simp add: update_book_absent)
  next
    case (Some d)
    from assms show ?thesis
      unfolding update_book_found [OF True Some]
      using Some by (auto split: if_splits sum.splits)
  qed
qed

section \<open>The claims about the handlers\<close>

subsection \<open>Updates that find no book or change nothing\<close>

lemma no_fields_set_fields: "no_fields u \<Longrightarrow> set_fields u d = d"
  by (simp add: no_fields_def set_fields_def set_field_def)

text \<open>
  C10. An update addressed to a well-formed identifier that names no book answers 404
  ``Book not found'' whatever the payload, the empty one included, and leaves the
  collection as it was: the handler looks the book up before it looks at the payload.
  For a book that exists, a payload whose ISBN another book holds is answered with the
  ISBN conflict, again before the payload is tested for emptiness or for changes.
\<close>

theorem update_of_missing_book_is_not_found:
  assumes "ObjectId_is_valid book_id"
  shows "(find_one (\<lambda>d. d_id d = ObjectId book_id) docs = None \<longrightarrow>
            update_book book_id u (Connected docs)
              = (Inl (HTTPException 404 ''Book not found''), Connected docs))
       \<and> (find_one (\<lambda>d. d_id d = ObjectId book_id) docs \<noteq> None
            \<and> u_ISBN u \<noteq> Unset
            \<and> find_one (\<lambda>d. d_ISBN d = field_value (u_ISBN u) \<and> d_id d \<noteq> ObjectId book_id) docs
                \<noteq> None \<longrightarrow>
            update_book book_id u (Connected docs)
              = (Inl (HTTPException 400 ''Another book with this ISBN already exists''),
                 Connected docs))"
proof (intro conjI impI)
  assume "find_one (\<lambda>d. d_id d = ObjectId book_id) docs = None"
  with assms show "update_book book_id u (Connected docs)
      = (Inl (HTTPException 404 ''Book not found''), Connected docs)"
    by (rule update_book_absent)
next
  assume a: "find_one (\<lambda>d. d_id d = ObjectId book_id) docs \<noteq> None
            \<and> u_ISBN u \<noteq> Unset
            \<and> find_one (\<lambda>d. d_ISBN d = field_value (u_ISBN u) \<and> d_id d \<noteq> ObjectId book_id) docs
                \<noteq> None"
  then obtain d where d: "find_one (\<lambda>d. d_id d = ObjectId book_id) docs = Some d" by auto
  show "update_book book_id u (Connected docs)
      = (Inl (HTTPException 400 ''Another book with this ISBN already exists''), Connected docs)"
    using a by (simp add: update_book_found [OF assms d])
qed

theorem update_of_missing_book_is_not_found_witness:
  "ObjectId_is_valid ex_new_id
   \<and> find_one (\<lambda>d. d_id d = ObjectId ex_new_id) [ex_doc] = None
   \<and> update_book ex_new_id no_update (Connected [ex_doc])
       = (Inl (HTTPException 404 ''Book not found''), Connected [ex_doc])"
proof -
  have h1: "ObjectId_is_valid ex_new_id" by code_simp
  have h2: "find_one (\<lambda>d. d_id d = ObjectId ex_new_id) [ex_doc] = None" by code_simp
  show ?thesis
    using update_of_missing_book_is_not_found [OF h1, of "[ex_doc]" no_update] h1 h2 by simp
qed

text \<open>
  C7. For a book that exists, an update whose payload is empty, or whose fields all
  hold the values the book already has, is answered with status 400 and the collection
  is left as it was.
\<close>

theorem update_without_change_is_rejected:
  assumes "ObjectId_is_valid book_id"
    and "find_one (\<lambda>x. d_id x = ObjectId book_id) docs = Some d"
    and "no_fields u \<or> set_fields u d = d"
  shows "\<exists>detail. update_book book_id u (Connected docs)
                    = (Inl (HTTPException 400 detail), Connected docs)"
proof -
  from assms(3) have same: "set_fields u d = d" by (auto simp: no_fields_set_fields)
  show ?thesis
    unfolding update_book_found [OF assms(1,2)] using same by simp
qed

theorem update_without_change_is_rejected_witness:
  "ObjectId_is_valid ex_id
   \<and> find_one (\<lambda>x. d_id x = ObjectId ex_id) [ex_doc] = Some ex_doc
   \<and> no_fields no_update
   \<and> set_fields (no_update\<lparr>u_title := Val ''Dune''\<rparr>) ex_doc = ex_doc
   \<and> (\<exists>detail. update_book ex_id no_update (Connected [ex_doc])
                  = (Inl (HTTPException 400 detail), Connected [ex_doc]))
   \<and> (\<exists>detail. update_book ex_id (no_update\<lparr>u_title := Val ''Dune''\<rparr>) (Connected [ex_doc])
                  = (Inl (HTTPException 400 detail), Connected [ex_doc]))"
proof -
  have h1: "ObjectId_is_valid ex_id" by code_simp
  have h2: "find_one (\<lambda>x. d_id x = ObjectId ex_id) [ex_doc] = Some ex_doc" by code_simp
  have h3: "no_fields no_update" by code_simp
  have h4: "set_fields (no_update\<lparr>u_title := Val ''Dune''\<rparr>) ex_doc = ex_doc" by code_simp
  show ?thesis
    using update_without_change_is_rejected [OF h1 h2, of no_update]
      update_without_change_is_rejected [OF h1 h2, of "no_update\<lparr>u_title := Val ''Dune''\<rparr>"]
      h1 h2 h3 h4
    by simp
qed

subsection \<open>Filtering without a criterion\<close>

text \<open>
  C8. With neither a genre nor a publication year, the filter operation never returns
  a result: for paging parameters in range it answers 400 ``At least one filter
  parameter is required'', and for paging parameters out of range the request is
  refused with 422 before the handler runs. The answer is the same for every state of
  the store, an unreachable one included, so no query has been issued.
\<close>

theorem filter_without_criteria_is_rejected:
  "filter_books pcre None None skip limit db
     = Inl (if paging_ok skip limit
            then HTTPException 400 ''At least one filter parameter is required''
            else HTTPException 422 ''Unprocessable Entity'')
   \<and> (\<forall>rs. filter_books pcre None None skip limit db \<noteq> Inr rs)"
  by (simp add: filter_books_def genre_condition_def year_condition_def)

theorem filter_without_criteria_is_rejected_witness:
  "filter_books (\<lambda>p. None) None None 0 10 Unreachable
     = Inl (HTTPException 400 ''At least one filter parameter is required'')
   \<and> filter_books (\<lambda>p. None) None None 0 10 (Connected [ex_doc])
     = Inl (HTTPException 400 ''At least one filter parameter is required'')"
proof -
  have h: "paging_ok 0 10" by (simp add: paging_ok_def)
  show ?thesis
    using filter_without_criteria_is_rejected [of "\<lambda>p. None" 0 10 Unreachable]
      filter_without_criteria_is_rejected [of "\<lambda>p. None" 0 10 "Connected [ex_doc]"] h
    by simp
qed

subsection \<open>Creating a book whose ISBN is taken\<close>

text \<open>
  C6. Creating a book whose ISBN string some stored book already has is answered with
  400 ``Book with this ISBN already exists'' and the collection is left as it was. The
  test is equality of the strings as they were sent: when no stored book has that
  very string the book is inserted and returned, also when a stored ISBN differs from
  it only in hyphens or spaces.
\<close>

theorem create_rejects_equal_raw_isbn_only:
  assumes "BookCreate p = Inr book"
    and "\<not> list_ex (\<lambda>d. d_id d = new_id) docs"
  shows "create_book new_id book (Connected docs) =
           (if list_ex (\<lambda>d. d_ISBN d = Some (b_ISBN book)) docs
            then (Inl (HTTPException 400 ''Book with this ISBN already exists''), Connected docs)
            else (Inr \<lparr>r_id = new_id, r_title = b_title book, r_author = b_author book,
                       r_ISBN = b_ISBN book, r_genre = b_genre book,
                       r_publication_year = b_publication_year book\<rparr>,
                  Connected (docs @ [book_dict new_id book])))"
proof (cases "list_ex (\<lambda>d. d_ISBN d = Some (b_ISBN book)) docs")
  case True
  then show ?thesis by (simp add: create_book_conflict)
next
  case False
  then show ?thesis
    using create_book_fresh [OF False assms(2) BookResponse_book_dict [OF assms(1)]] by simp
qed

theorem create_rejects_equal_raw_isbn_only_witness:
  "BookCreate ex_payload = Inr ex_book
   \<and> \<not> list_ex (\<lambda>d. d_id d = ex_new_id) [ex_doc]
   \<and> replace_with_empty (CHR '' '') (replace_with_empty (CHR ''-'') (b_ISBN ex_book))
       = ''0306406152''
   \<and> d_ISBN ex_doc = Some ''0306406152''
   \<and> create_book ex_new_id ex_book (Connected [ex_doc])
       = (Inr ex_response, Connected [ex_doc, book_dict ex_new_id ex_book])
   \<and> create_book ex_id ex_book (Connected [ex_doc, book_dict ex_new_id ex_book])
       = (Inl (HTTPException 400 ''Book with this ISBN already exists''),
          Connected [ex_doc, book_dict ex_new_id ex_book])"
proof -
  have h1: "BookCreate ex_payload = Inr ex_book" by code_simp
  have h2: "\<not> list_ex (\<lambda>d. d_id d = ex_new_id) [ex_doc]" by code_simp
  have h3: "replace_with_empty (CHR '' '') (replace_with_empty (CHR ''-'') (b_ISBN ex_book))
       = ''0306406152''" by code_simp
  have h4: "d_ISBN ex_doc = Some ''0306406152''" by code_simp
  have h5: "create_book ex_id ex_book (Connected [ex_doc, book_dict ex_new_id ex_book])
       = (Inl (HTTPException 400 ''Book with this ISBN already exists''),
          Connected [ex_doc, book_dict ex_new_id ex_book])" by code_simp
  have e1: "\<not> list_ex (\<lambda>d. d_ISBN d = Some (b_ISBN ex_book)) [ex_doc]" by code_simp
  have e2: "\<lparr>r_id = ex_new_id, r_title = b_title ex_book, r_author = b_author ex_book,
             r_ISBN = b_ISBN ex_book, r_genre = b_genre ex_book,
             r_publication_year = b_publication_year ex_book\<rparr> = ex_response" by code_simp
  show ?thesis
    using create_rejects_equal_raw_isbn_only [OF h1 h2] h1 h2 h3 h4 h5 e1 e2 by simp
qed

subsection \<open>What an update changes\<close>

lemma kept_by_update_refl: "kept_by_update oid u x x"
  by (simp add: kept_by_update_def)

lemma kept_by_update_set_fields: "d_id d = oid \<Longrightarrow> kept_by_update oid u d (set_fields u d)"
  by (simp add: kept_by_update_def set_fields_def set_field_def)

lemma written_field_set_field: "written_field f (set_field f old)"
  by (cases f) (simp_all add: written_field_def set_field_def)

lemma written_by_update_set_fields: "written_by_update u (set_fields u d)"
  by (simp add: written_by_update_def set_fields_def written_field_set_field)

lemma shown_unchanged_set_fields:
  assumes "BookResponse d = Inr r0" and "BookResponse (set_fields u d) = Inr r"
  shows "shown_unchanged u r0 r"
proof -
  note a = BookResponse_fields [OF assms(1)]
  note b = BookResponse_fields [OF assms(2)]
  have "r_id r = r_id r0" using a(1) b(1) by (simp add: d_id_set_fields)
  moreover have "u_title u = Unset \<Longrightarrow> r_title r = r_title r0"
    using a(2) b(2) by (simp add: set_fields_def set_field_def)
  moreover have "u_author u = Unset \<Longrightarrow> r_author r = r_author r0"
    using a(3) b(3) by (simp add: set_fields_def set_field_def)
  moreover have "u_ISBN u = Unset \<Longrightarrow> r_ISBN r = r_ISBN r0"
    using a(4) b(4) by (simp add: set_fields_def set_field_def)
  moreover have "u_genre u = Unset \<Longrightarrow> r_genre r = r_genre r0"
    using a(5) b(5) by (simp add: set_fields_def set_field_def)
  moreover have "u_publication_year u = Unset \<Longrightarrow> r_publication_year r = r_publication_year r0"
    using a(6) b(6) by (simp add: set_fields_def set_field_def)
  ultimately show ?thesis by (simp add: shown_unchanged_def)
qed

lemma get_book_Inr:
  assumes "get_book i (Connected docs) = Inr r"
  shows "\<exists>d. ObjectId_is_valid i \<and> find_one (\<lambda>x. d_id x = ObjectId i) docs = Some d
             \<and> BookResponse d = Inr r"
  using assms by (auto simp: get_book_def split: if_splits option.splits sum.splits)

lemma find_one_after_replace:
  assumes "find_one (\<lambda>x. d_id x = oid) docs = Some d"
  shows "find_one (\<lambda>x. d_id x = oid) (replace_first (\<lambda>x. d_id x = oid) (set_fields u d) docs)
         = Some (set_fields u d)"
proof -
  from assms have f: "find (\<lambda>x. d_id x = oid) docs = Some d" by (simp add: find_one_def)
  have "d_id d = oid" using f by (rule find_Some_id)
  then show ?thesis
    unfolding find_one_def by (simp add: find_replace_first d_id_set_fields f)
qed

text \<open>
  Whatever an update answers, every stored book keeps its id, every book other than
  the addressed one is left as it was, and on the addressed book every field absent
  from the payload keeps its value.
\<close>

lemma update_book_frame:
  assumes "update_book book_id u (Connected docs) = (res, db')"
  shows "\<exists>docs'. db' = Connected docs'
           \<and> list_all2 (kept_by_update (ObjectId book_id) u) docs docs'"
  using update_book_store [OF assms]
proof (elim disjE exE conjE)
  assume "db' = Connected docs"
  then show ?thesis by (simp add: list_all2_refl kept_by_update_refl)
next
  fix d
  assume d: "find_one (\<lambda>x. d_id x = ObjectId book_id) docs = Some d"
    and db': "db' = Connected (replace_first (\<lambda>x. d_id x = ObjectId book_id) (set_fields u d) docs)"
  from d have f: "find (\<lambda>x. d_id x = ObjectId book_id) docs = Some d" by (simp add: find_one_def)
  have "d_id d = ObjectId book_id" using f by (rule find_Some_id)
  then have "kept_by_update (ObjectId book_id) u d (set_fields u d)"
    by (rule kept_by_update_set_fields)
  with f have "list_all2 (kept_by_update (ObjectId book_id) u) docs
          (replace_first (\<lambda>x. d_id x = ObjectId book_id) (set_fields u d) docs)"
    by (rule replace_first_rel [OF _ kept_by_update_refl])
  with db' show ?thesis by simp
qed

lemma update_book_fetch:
  assumes "update_book book_id u (Connected docs) = (Inr r, Connected docs')"
  shows "get_book book_id (Connected docs') = Inr r"
    and "r_id r = ObjectId book_id"
    and "\<exists>d'. find_one (\<lambda>x. d_id x = ObjectId book_id) docs' = Some d' \<and> written_by_update u d'"
    and "get_book book_id (Connected docs) = Inr r0 \<Longrightarrow> shown_unchanged u r0 r"
proof -
  let ?q = "\<lambda>x. d_id x = ObjectId book_id"
  from update_book_success [OF assms]
  obtain d where valid: "ObjectId_is_valid book_id"
    and d: "find_one ?q docs = Some d"
    and db': "Connected docs' = Connected (replace_first ?q (set_fields u d) docs)"
    and resp: "BookResponse (set_fields u d) = Inr r"
    by (elim exE conjE)
  have docs': "docs' = replace_first ?q (set_fields u d) docs" using db' by simp
  have after: "find_one ?q docs' = Some (set_fields u d)"
    unfolding docs' using d by (rule find_one_after_replace)
  show "get_book book_id (Connected docs') = Inr r"
    using valid after resp by (rule get_book_found)
  have "d_id d = ObjectId book_id"
    using d find_Some_id [of "ObjectId book_id" docs d] by (simp add: find_one_def)
  then show "r_id r = ObjectId book_id"
    using BookResponse_fields(1) [OF resp] by (simp add: d_id_set_fields)
  show "\<exists>d'. find_one ?q docs' = Some d' \<and> written_by_update u d'"
    using after written_by_update_set_fields by (intro exI conjI)
  show "shown_unchanged u r0 r" if "get_book book_id (Connected docs) = Inr r0"
  proof -
    from get_book_Inr [OF that] obtain d0 where "find_one ?q docs = Some d0"
      and "BookResponse d0 = Inr r0" by (elim exE conjE)
    with d have "BookResponse d = Inr r0" by simp
    then show ?thesis using resp by (rule shown_unchanged_set_fields)
  qed
qed

lemma BookUpdate_title_Val:
  assumes "BookUpdate_title f = Inr (Val v)"
  shows "BookBase_title (Val v) = Inr v"
proof (cases f)
  case Unset
  with assms show ?thesis by (simp add: BookUpdate_title_def optional_str_def)
next
  case Null
  with assms show ?thesis
    by (simp add: BookUpdate_title_def optional_str_def BookUpdate_validate_strings_def
        and_then_def to_field_def)
next
  case (Val raw)
  with assms have "1 \<le> length raw \<and> length raw \<le> 200 \<and> strip raw \<noteq> [] \<and> v = strip raw"
    by (simp add: BookUpdate_title_iff)
  then have "BookBase_title (Val raw) = Inr v" by (simp add: BookBase_title_iff)
  then show ?thesis by (rule BookBase_title_again)
qed

lemma BookUpdate_author_Val:
  assumes "BookUpdate_author f = Inr (Val v)"
  shows "BookBase_author (Val v) = Inr v"
proof (cases f)
  case Unset
  with assms show ?thesis by (simp add: BookUpdate_author_def optional_str_def)
next
  case Null
  with assms show ?thesis
    by (simp add: BookUpdate_author_def optional_str_def BookUpdate_validate_strings_def
        and_then_def to_field_def)
next
  case (Val raw)
  with assms have "1 \<le> length raw \<and> length raw \<le> 100 \<and> strip raw \<noteq> [] \<and> v = strip raw"
    by (simp add: BookUpdate_author_iff)
  then have "BookBase_author (Val raw) = Inr v" by (simp add: BookBase_author_iff)
  then show ?thesis by (rule BookBase_author_again)
qed

lemma BookUpdate_genre_Val:
  assumes "BookUpdate_genre f = Inr (Val v)"
  shows "BookBase_genre (Val v) = Inr v"
proof (cases f)
  case Unset
  with assms show ?thesis by (simp add: BookUpdate_genre_def optional_str_def)
next
  case Null
  with assms show ?thesis
    by (simp add: BookUpdate_genre_def optional_str_def BookUpdate_validate_strings_def
        and_then_def to_field_def)
next
  case (Val raw)
  with assms have "1 \<le> length raw \<and> length raw \<le> 50 \<and> strip raw \<noteq> [] \<and> v = strip raw"
    by (simp add: BookUpdate_genre_iff)
  then have "BookBase_genre (Val raw) = Inr v" by (simp add: BookBase_genre_iff)
  then show ?thesis by (rule BookBase_genre_again)
qed

lemma BookUpdate_ISBN_Val:
  assumes "BookUpdate_ISBN f = Inr (Val v)"
  shows "BookBase_ISBN (Val v) = Inr v"
proof (cases f)
  case Unset
  with assms show ?thesis by (simp add: BookUpdate_ISBN_def optional_str_def)
next
  case Null
  with assms show ?thesis
    by (simp add: BookUpdate_ISBN_def optional_str_def BookUpdate_validate_isbn_def
        and_then_def to_field_def)
next
  case (Val raw)
  with assms have "length raw \<le> 17 \<and> isbn_shape raw \<and> v = raw"
    by (simp add: BookUpdate_ISBN_iff)
  then show ?thesis by (simp add: BookBase_ISBN_iff)
qed

lemma BookUpdate_publication_year_Val:
  assumes "BookUpdate_publication_year f = Inr (Val v)"
  shows "BookBase_publication_year (Val v) = Inr v"
proof (cases f)
  case Unset
  with assms show ?thesis by (simp add: BookUpdate_publication_year_def)
next
  case Null
  with assms show ?thesis by (simp add: BookUpdate_publication_year_def)
next
  case (Val raw)
  with assms have "conint 1000 2024 raw = Inr v"
    by (auto simp: BookUpdate_publication_year_def and_then_def split: sum.splits)
  then show ?thesis
    by (auto simp: BookBase_publication_year_def required_def and_then_def conint_def
        split: if_splits)
qed

text \<open>
  A field of the updated document validates for the response: an absent field because
  the stored value did, a given value because the update model validated it.
\<close>

lemma set_field_validates:
  assumes "f \<noteq> Null"
    and "check (to_field old) = Inr t0"
    and "\<And>v. f = Val v \<Longrightarrow> check (Val v) = Inr v"
  shows "\<exists>t. check (to_field (set_field f old)) = Inr t
           \<and> (f = Unset \<longrightarrow> t = t0) \<and> written_field f (Some t)"
  using assms by (cases f) (simp_all add: set_field_def to_field_def written_field_def)

text \<open>
  When an update succeeds. For a book that exists and can be fetched, a payload that
  validates, has no \<open>null\<close> field, gives no ISBN that another book holds and changes at
  least one stored field is written and answered with the updated entity; a fetch
  returns that entity; it shows the payload's values in the fields the payload gives
  and, in the id and every other field, what a fetch showed before.
\<close>

lemma update_without_null_succeeds:
  assumes valid: "ObjectId_is_valid book_id"
    and d: "find_one (\<lambda>x. d_id x = ObjectId book_id) docs = Some d"
    and r0: "get_book book_id (Connected docs) = Inr r0"
    and u: "BookUpdate body = Inr u"
    and nonull: "no_null u"
    and free: "u_ISBN u = Unset \<or>
               find_one (\<lambda>x. d_ISBN x = field_value (u_ISBN u) \<and> d_id x \<noteq> ObjectId book_id) docs
                 = None"
    and change: "set_fields u d \<noteq> d"
  shows "\<exists>r docs'. put_books book_id body (Connected docs) = (Inr r, Connected docs')
           \<and> docs' = replace_first (\<lambda>x. d_id x = ObjectId book_id) (set_fields u d) docs
           \<and> written_by_update u (set_fields u d)
           \<and> get_book book_id (Connected docs') = Inr r
           \<and> shown_unchanged u r0 r
           \<and> written_field (u_title u) (Some (r_title r))
           \<and> written_field (u_author u) (Some (r_author r))
           \<and> written_field (u_ISBN u) (Some (r_ISBN r))
           \<and> written_field (u_genre u) (Some (r_genre r))
           \<and> written_field (u_publication_year u) (Some (r_publication_year r))"
proof -
  let ?q = "\<lambda>x. d_id x = ObjectId book_id"
  let ?d' = "set_fields u d"
  let ?docs' = "replace_first ?q ?d' docs"
  from get_book_Inr [OF r0] d have resp0: "BookResponse d = Inr r0" by auto
  note f0 = BookResponse_fields [OF resp0]
  note fu = BookUpdate_fields [OF u]
  from nonull have nn: "u_title u \<noteq> Null" "u_author u \<noteq> Null" "u_ISBN u \<noteq> Null"
    "u_genre u \<noteq> Null" "u_publication_year u \<noteq> Null"
    by (simp_all add: no_null_def)
  obtain t where t: "BookBase_title (to_field (set_field (u_title u) (d_title d))) = Inr t"
    "u_title u = Unset \<longrightarrow> t = r_title r0" "written_field (u_title u) (Some t)"
    using set_field_validates [where check = BookBase_title and f = "u_title u" and old = "d_title d",
        OF nn(1) f0(2)] BookUpdate_title_Val fu(1) by metis
  obtain a where a: "BookBase_author (to_field (set_field (u_author u) (d_author d))) = Inr a"
    "u_author u = Unset \<longrightarrow> a = r_author r0" "written_field (u_author u) (Some a)"
    using set_field_validates [where check = BookBase_author and f = "u_author u" and old = "d_author d",
        OF nn(2) f0(3)] BookUpdate_author_Val fu(2) by metis
  obtain i where i: "BookBase_ISBN (to_field (set_field (u_ISBN u) (d_ISBN d))) = Inr i"
    "u_ISBN u = Unset \<longrightarrow> i = r_ISBN r0" "written_field (u_ISBN u) (Some i)"
    using set_field_validates [where check = BookBase_ISBN and f = "u_ISBN u" and old = "d_ISBN d",
        OF nn(3) f0(4)] BookUpdate_ISBN_Val fu(3) by metis
  obtain g where g: "BookBase_genre (to_field (set_field (u_genre u) (d_genre d))) = Inr g"
    "u_genre u = Unset \<longrightarrow> g = r_genre r0" "written_field (u_genre u) (Some g)"
    using set_field_validates [where check = BookBase_genre and f = "u_genre u" and old = "d_genre d",
        OF nn(4) f0(5)] BookUpdate_genre_Val fu(4) by metis
  obtain y where y: "BookBase_publication_year
        (to_field (set_field (u_publication_year u) (d_publication_year d))) = Inr y"
    "u_publication_year u = Unset \<longrightarrow> y = r_publication_year r0"
    "written_field (u_publication_year u) (Some y)"
    using set_field_validates [where check = BookBase_publication_year and f = "u_publication_year u" and old = "d_publication_year d",
        OF nn(5) f0(6)] BookUpdate_publication_year_Val fu(5) by metis
  let ?r = "\<lparr>r_id = d_id ?d', r_title = t, r_author = a, r_ISBN = i, r_genre = g,
             r_publication_year = y\<rparr>"
  have resp: "BookResponse ?d' = Inr ?r"
    by (rule BookResponse_intro) (simp_all add: set_fields_def t(1) a(1) i(1) g(1) y(1))
  have nofields: "\<not> no_fields u" using change no_fields_set_fields by blast
  have noconflict: "\<not> (u_ISBN u \<noteq> Unset \<and>
      find_one (\<lambda>x. d_ISBN x = field_value (u_ISBN u) \<and> d_id x \<noteq> ObjectId book_id) docs \<noteq> None)"
    using free by auto
  have nodup: "\<not> (d_ISBN ?d' \<noteq> d_ISBN d
                  \<and> list_ex (\<lambda>x. d_id x \<noteq> ObjectId book_id \<and> d_ISBN x = d_ISBN ?d') docs)"
  proof (cases "u_ISBN u")
    case Unset
    then show ?thesis by (simp add: set_fields_def set_field_def)
  next
    case Null
    with nn(3) show ?thesis by simp
  next
    case (Val v)
    with free have "find (\<lambda>x. d_ISBN x = Some v \<and> d_id x \<noteq> ObjectId book_id) docs = None"
      by (simp add: find_one_def field_value_def)
    then have "\<not> list_ex (\<lambda>x. d_id x \<noteq> ObjectId book_id \<and> d_ISBN x = Some v) docs"
      by (auto simp: find_None_iff list_ex_iff)
    with Val show ?thesis by (simp add: set_fields_def set_field_def)
  qed
  have up: "update_book book_id u (Connected docs) = (Inr ?r, Connected ?docs')"
    unfolding update_book_found [OF valid d]
    using noconflict nofields change nodup resp by simp
  then have put: "put_books book_id body (Connected docs) = (Inr ?r, Connected ?docs')"
    by (simp add: put_books_def u)
  have fetch: "get_book book_id (Connected ?docs') = Inr ?r"
    by (rule update_book_fetch(1) [OF up])
  have shown: "shown_unchanged u r0 ?r"
    using r0 by (rule update_book_fetch(4) [OF up])
  show ?thesis
    using put written_by_update_set_fields [of u d] fetch shown t(3) a(3) i(3) g(3) y(3)
    by (intro exI [of _ ?r] exI [of _ ?docs']) simp
qed

text \<open>
  C4. An update whose payload gives \<open>null\<close> for the genre passes the validation of the
  update model, writes \<open>null\<close> into the stored book and is answered with status 500;
  the fetch of that book, which returned it before, is answered with status 500
  afterwards. The round trip does not show the other fields unchanged: it shows nothing.
\<close>

theorem update_with_null_genre_breaks_the_fetch:
  "BookUpdate ex_put_null_genre = Inr (no_update\<lparr>u_genre := Null\<rparr>)
   \<and> get_book ex_id (Connected [ex_doc])
       = Inr \<lparr>r_id = ex_id, r_title = ''Dune'', r_author = ''Frank Herbert'',
              r_ISBN = ''0306406152'', r_genre = ''Sci-Fi'', r_publication_year = 1965\<rparr>
   \<and> put_books ex_id ex_put_null_genre (Connected [ex_doc])
       = (Inl (HTTPException 500 ''Error updating book''),
          Connected [ex_doc\<lparr>d_genre := None\<rparr>])
   \<and> get_book ex_id (Connected [ex_doc\<lparr>d_genre := None\<rparr>])
       = Inl (HTTPException 500 ''Error retrieving book'')"
  by code_simp

lemma update_of_one_field_example:
  "put_books ex_id ex_put_title (Connected [ex_doc, book_dict ex_new_id ex_book])
     = (Inr \<lparr>r_id = ex_id, r_title = ''Dune Messiah'', r_author = ''Frank Herbert'',
              r_ISBN = ''0306406152'', r_genre = ''Sci-Fi'', r_publication_year = 1965\<rparr>,
        Connected [ex_doc\<lparr>d_title := Some ''Dune Messiah''\<rparr>, book_dict ex_new_id ex_book])
   \<and> get_book ex_id (Connected [ex_doc\<lparr>d_title := Some ''Dune Messiah''\<rparr>,
                                 book_dict ex_new_id ex_book])
     = Inr \<lparr>r_id = ex_id, r_title = ''Dune Messiah'', r_author = ''Frank Herbert'',
            r_ISBN = ''0306406152'', r_genre = ''Sci-Fi'', r_publication_year = 1965\<rparr>"
  by code_simp

subsection \<open>Creating and fetching\<close>

text \<open>
  C5. For a request body that validates, a fresh identifier and an ISBN that no stored
  book has, create returns an entity whose title, author and genre are the trimmed
  strings of the body, and a fetch by the returned id, right after, returns that same
  entity.
\<close>

theorem create_returns_trimmed_fields_and_fetch_agrees:
  assumes "BookCreate p = Inr book"
    and "oid_wf new_id"
    and "\<not> list_ex (\<lambda>d. d_id d = new_id) docs"
    and "\<not> list_ex (\<lambda>d. d_ISBN d = Some (b_ISBN book)) docs"
  shows "\<exists>r db' t a g.
            create_book new_id book (Connected docs) = (Inr r, db')
          \<and> p_title p = Val t \<and> r_title r = strip t
          \<and> p_author p = Val a \<and> r_author r = strip a
          \<and> p_genre p = Val g \<and> r_genre r = strip g
          \<and> get_book (r_id r) db' = Inr r"
proof -
  let ?r = "\<lparr>r_id = new_id, r_title = b_title book, r_author = b_author book,
             r_ISBN = b_ISBN book, r_genre = b_genre book,
             r_publication_year = b_publication_year book\<rparr>"
  let ?docs' = "docs @ [book_dict new_id book]"
  note f = BookCreate_fields [OF assms(1)]
  have resp: "BookResponse (book_dict new_id book) = Inr ?r"
    using assms(1) by (rule BookResponse_book_dict)
  have c: "create_book new_id book (Connected docs) = (Inr ?r, Connected ?docs')"
    using assms(4,3) resp by (rule create_book_fresh)
  obtain t where t: "p_title p = Val t" using BookBase_title_Val [OF f(1)] by blast
  obtain a where a: "p_author p = Val a" using BookBase_author_Val [OF f(2)] by blast
  obtain g where g: "p_genre p = Val g" using BookBase_genre_Val [OF f(4)] by blast
  have t': "b_title book = strip t" using f(1) unfolding t BookBase_title_iff by simp
  have a': "b_author book = strip a" using f(2) unfolding a BookBase_author_iff by simp
  have g': "b_genre book = strip g" using f(4) unfolding g BookBase_genre_iff by simp
  have fnd: "find_one (\<lambda>d. d_id d = ObjectId new_id) ?docs' = Some (book_dict new_id book)"
    unfolding find_one_def oid_wf_canonical [OF assms(2)]
    using assms(3) by (rule find_append_fresh) (simp add: book_dict_def)
  have "get_book new_id (Connected ?docs') = Inr ?r"
    using oid_wf_valid [OF assms(2)] fnd resp by (rule get_book_found)
  then have fetch: "get_book (r_id ?r) (Connected ?docs') = Inr ?r" by simp
  show ?thesis
    using c t a g t' a' g' fetch
    by (intro exI [of _ ?r] exI [of _ "Connected ?docs'"] exI [of _ t] exI [of _ a] exI [of _ g])
       simp
qed

theorem create_returns_trimmed_fields_and_fetch_agrees_witness:
  "BookCreate ex_payload = Inr ex_book
   \<and> oid_wf ex_new_id
   \<and> \<not> list_ex (\<lambda>d. d_id d = ex_new_id) [ex_doc]
   \<and> \<not> list_ex (\<lambda>d. d_ISBN d = Some (b_ISBN ex_book)) [ex_doc]
   \<and> create_book ex_new_id ex_book (Connected [ex_doc])
       = (Inr ex_response, Connected [ex_doc, book_dict ex_new_id ex_book])
   \<and> r_title ex_response = strip ''  Emma ''
   \<and> r_genre ex_response = strip '' Fiction''
   \<and> get_book (r_id ex_response) (Connected [ex_doc, book_dict ex_new_id ex_book])
       = Inr ex_response"
proof -
  have h1: "BookCreate ex_payload = Inr ex_book" by code_simp
  have h2: "oid_wf ex_new_id" by code_simp
  have h3: "\<not> list_ex (\<lambda>d. d_id d = ex_new_id) [ex_doc]" by code_simp
  have h4: "\<not> list_ex (\<lambda>d. d_ISBN d = Some (b_ISBN ex_book)) [ex_doc]" by code_simp
  have c: "create_book ex_new_id ex_book (Connected [ex_doc])
       = (Inr ex_response, Connected [ex_doc, book_dict ex_new_id ex_book])" by code_simp
  have s1: "r_title ex_response = strip ''  Emma ''" by code_simp
  have s2: "r_genre ex_response = strip '' Fiction''" by code_simp
  from create_returns_trimmed_fields_and_fetch_agrees [OF h1 h2 h3 h4]
  obtain r db' where "create_book ex_new_id ex_book (Connected [ex_doc]) = (Inr r, db')"
    and "get_book (r_id r) db' = Inr r" by blast
  with c have "get_book (r_id ex_response) (Connected [ex_doc, book_dict ex_new_id ex_book])
       = Inr ex_response" by simp
  with h1 h2 h3 h4 c s1 s2 show ?thesis by (intro conjI)
qed

subsection \<open>Validation of the ISBN\<close>

lemma create_book_success:
  assumes "create_book new_id book (Connected docs) = (Inr r, db')"
  shows "db' = Connected (docs @ [book_dict new_id book])"
    and "BookResponse (book_dict new_id book) = Inr r"
proof -
  from assms have ins: "insert_one (book_dict new_id book) docs = Inr (docs @ [book_dict new_id book])"
    by (auto simp: create_book_def insert_one_def split: option.splits sum.splits if_splits)
  then have "\<not> list_ex (\<lambda>x. d_id x = new_id) docs"
    by (auto simp: insert_one_def list_ex_iff book_dict_def split: if_splits)
  then have fnd: "find_one (\<lambda>d. d_id d = new_id) (docs @ [book_dict new_id book])
                    = Some (book_dict new_id book)"
    unfolding find_one_def by (rule find_append_fresh) (simp add: book_dict_def)
  from assms ins fnd show "db' = Connected (docs @ [book_dict new_id book])"
    by (auto simp: create_book_def split: option.splits sum.splits)
  from assms ins fnd show "BookResponse (book_dict new_id book) = Inr r"
    by (auto simp: create_book_def split: option.splits sum.splits)
qed

lemma post_books_success:
  assumes "post_books new_id body (Connected docs) = (Inr r, db')"
  shows "\<exists>book. BookCreate body = Inr book
               \<and> create_book new_id book (Connected docs) = (Inr r, db')"
  using assms by (auto simp: post_books_def split: sum.splits)

lemma put_books_success:
  assumes "put_books book_id body (Connected docs) = (Inr r, db')"
  shows "\<exists>u. BookUpdate body = Inr u \<and> update_book book_id u (Connected docs) = (Inr r, db')"
  using assms by (auto simp: put_books_def split: sum.splits)

lemma put_books_stored:
  assumes "put_books book_id body (Connected docs) = (Inr r, db')"
  shows "\<exists>u d docs'. BookUpdate body = Inr u
            \<and> db' = Connected docs'
            \<and> find_one (\<lambda>x. d_id x = ObjectId book_id) docs' = Some (set_fields u d)
            \<and> BookResponse (set_fields u d) = Inr r"
proof -
  from put_books_success [OF assms] obtain u where u: "BookUpdate body = Inr u"
    and up: "update_book book_id u (Connected docs) = (Inr r, db')" by (elim exE conjE)
  from update_book_success [OF up] obtain d where
    d: "find_one (\<lambda>x. d_id x = ObjectId book_id) docs = Some d"
    and db': "db' = Connected (replace_first (\<lambda>x. d_id x = ObjectId book_id) (set_fields u d) docs)"
    and resp: "BookResponse (set_fields u d) = Inr r" by (elim exE conjE)
  have "find_one (\<lambda>x. d_id x = ObjectId book_id)
          (replace_first (\<lambda>x. d_id x = ObjectId book_id) (set_fields u d) docs)
        = Some (set_fields u d)"
    using d by (rule find_one_after_replace)
  with u db' resp show ?thesis by blast
qed

lemma isbn_shape_spec:
  assumes "no_other_digits v"
  shows "isbn_shape v = spec_isbn_ok v"
proof -
  let ?s = "filter (\<lambda>c. c \<noteq> CHR ''-'' \<and> c \<noteq> CHR '' '') v"
  have same: "isdigit_char c = spec_digit c" if "c \<in> set ?s" for c
  proof -
    from that assms have "\<not> other_digit c" by (auto simp: no_other_digits_def list_all_iff)
    then show ?thesis by (auto simp: isdigit_char_def spec_digit_def other_digit_def)
  qed
  have all: "list_all isdigit_char ?s = list_all spec_digit ?s"
    using same by (auto simp: list_all_iff)
  have nine: "list_all isdigit_char (take 9 ?s) = list_all spec_digit (take 9 ?s)"
    using same set_take_subset [of 9 ?s] by (auto simp: list_all_iff)
  have last: "isdigit_char (?s ! 9) = spec_digit (?s ! 9)" if "length ?s = 10"
    using that by (intro same nth_mem) simp
  show ?thesis
    unfolding isbn_shape_def spec_isbn_ok_def Let_def using all nine last by auto
qed

text \<open>
  C2, as amended. For a string in which no character other than 0 to 9 counts as a
  digit, the ISBN of a create or update body is accepted if and only if the string as
  sent has at most 17 characters and its form without hyphens and spaces has length 10
  with nine digits and then a digit or \<open>X\<close>/\<open>x\<close>, or length 13 with digits only, the
  digits being 0 to 9. Whatever is accepted is kept as it was sent, and that string is
  what a successful create or update stores and returns.
\<close>

theorem isbn_checked_stripped_and_raw_stored_raw:
  "(no_other_digits v \<longrightarrow>
        (BookBase_ISBN (Val v) = Inr w \<longleftrightarrow> length v \<le> 17 \<and> spec_isbn_ok v \<and> w = v))
   \<and> (no_other_digits v \<longrightarrow>
        (BookUpdate_ISBN (Val v) = Inr f \<longleftrightarrow> length v \<le> 17 \<and> spec_isbn_ok v \<and> f = Val v))
   \<and> (BookBase_ISBN (Val v) = Inr w \<longrightarrow> length v \<le> 17 \<and> w = v)
   \<and> (BookUpdate_ISBN (Val v) = Inr f \<longrightarrow> length v \<le> 17 \<and> f = Val v)
   \<and> (post_books new_id body (Connected docs) = (Inr r, db') \<and> p_ISBN body = Val v \<longrightarrow>
         r_ISBN r = v \<and> (\<exists>d. db' = Connected (docs @ [d]) \<and> d_ISBN d = Some v))
   \<and> (put_books book_id body (Connected docs) = (Inr r', db'') \<and> p_ISBN body = Val v \<longrightarrow>
         r_ISBN r' = v
         \<and> (\<exists>docs' d. db'' = Connected docs'
               \<and> find_one (\<lambda>x. d_id x = ObjectId book_id) docs' = Some d \<and> d_ISBN d = Some v))"
proof (intro conjI impI)
  assume "no_other_digits v"
  then show "BookBase_ISBN (Val v) = Inr w \<longleftrightarrow> length v \<le> 17 \<and> spec_isbn_ok v \<and> w = v"
    by (simp add: BookBase_ISBN_iff isbn_shape_spec)
next
  assume "no_other_digits v"
  then show "BookUpdate_ISBN (Val v) = Inr f \<longleftrightarrow> length v \<le> 17 \<and> spec_isbn_ok v \<and> f = Val v"
    by (simp add: BookUpdate_ISBN_iff isbn_shape_spec)
next
  assume "BookBase_ISBN (Val v) = Inr w"
  then show "length v \<le> 17" and "w = v" by (simp_all add: BookBase_ISBN_iff)
next
  assume "BookUpdate_ISBN (Val v) = Inr f"
  then show "length v \<le> 17" and "f = Val v" by (simp_all add: BookUpdate_ISBN_iff)
next
  assume a: "post_books new_id body (Connected docs) = (Inr r, db') \<and> p_ISBN body = Val v"
  from post_books_success [of new_id body docs r db'] a obtain book
    where b: "BookCreate body = Inr book"
      and c: "create_book new_id book (Connected docs) = (Inr r, db')" by blast
  have "BookBase_ISBN (Val v) = Inr (b_ISBN book)" using BookCreate_fields(3) [OF b] a by simp
  then have i: "b_ISBN book = v" unfolding BookBase_ISBN_iff by simp
  note s = create_book_success [OF c]
  have "BookBase_ISBN (Val v) = Inr (r_ISBN r)"
    using BookResponse_fields(4) [OF s(2)] i by (simp add: book_dict_def to_field_def)
  then show "r_ISBN r = v" unfolding BookBase_ISBN_iff by simp
  have "d_ISBN (book_dict new_id book) = Some v" using i by (simp add: book_dict_def)
  with s(1) show "\<exists>d. db' = Connected (docs @ [d]) \<and> d_ISBN d = Some v" by blast
next
  assume a: "put_books book_id body (Connected docs) = (Inr r', db'') \<and> p_ISBN body = Val v"
  from put_books_stored [of book_id body docs r' db''] a obtain u d docs'
    where u: "BookUpdate body = Inr u"
      and db: "db'' = Connected docs'"
      and f: "find_one (\<lambda>x. d_id x = ObjectId book_id) docs' = Some (set_fields u d)"
      and resp: "BookResponse (set_fields u d) = Inr r'" by blast
  have "BookUpdate_ISBN (Val v) = Inr (u_ISBN u)" using BookUpdate_fields(3) [OF u] a by simp
  then have "u_ISBN u = Val v" unfolding BookUpdate_ISBN_iff by simp
  then have st: "d_ISBN (set_fields u d) = Some v" by (simp add: set_fields_def set_field_def)
  have "BookBase_ISBN (Val v) = Inr (r_ISBN r')"
    using BookResponse_fields(4) [OF resp] st by (simp add: to_field_def)
  then show "r_ISBN r' = v" unfolding BookBase_ISBN_iff by simp
  from db f st show "\<exists>docs' d. db'' = Connected docs'
      \<and> find_one (\<lambda>x. d_id x = ObjectId book_id) docs' = Some d \<and> d_ISBN d = Some v" by blast
qed

theorem isbn_checked_stripped_and_raw_stored_raw_witness:
  "no_other_digits ''0-306-40615-2''
   \<and> length ''0-306-40615-2'' \<le> 17
   \<and> spec_isbn_ok ''0-306-40615-2''
   \<and> BookBase_ISBN (Val ''0-306-40615-2'') = Inr ''0-306-40615-2''
   \<and> post_books ex_new_id ex_payload (Connected [ex_doc])
       = (Inr ex_response, Connected [ex_doc, book_dict ex_new_id ex_book])
   \<and> p_ISBN ex_payload = Val ''0-306-40615-2''
   \<and> r_ISBN ex_response = ''0-306-40615-2''
   \<and> d_ISBN (book_dict ex_new_id ex_book) = Some ''0-306-40615-2''
   \<and> put_books ex_id ex_put_isbn (Connected [ex_doc])
       = (Inr \<lparr>r_id = ex_id, r_title = ''Dune'', r_author = ''Frank Herbert'',
                r_ISBN = ''0 306 40615 x'', r_genre = ''Sci-Fi'', r_publication_year = 1965\<rparr>,
          Connected [ex_doc\<lparr>d_ISBN := Some ''0 306 40615 x''\<rparr>])
   \<and> p_ISBN ex_put_isbn = Val ''0 306 40615 x''"
proof -
  have h1: "post_books ex_new_id ex_payload (Connected [ex_doc])
       = (Inr ex_response, Connected [ex_doc, book_dict ex_new_id ex_book])" by code_simp
  have h2: "p_ISBN ex_payload = Val ''0-306-40615-2''" by code_simp
  have h3: "d_ISBN (book_dict ex_new_id ex_book) = Some ''0-306-40615-2''" by code_simp
  have h4: "put_books ex_id ex_put_isbn (Connected [ex_doc])
       = (Inr \<lparr>r_id = ex_id, r_title = ''Dune'', r_author = ''Frank Herbert'',
                r_ISBN = ''0 306 40615 x'', r_genre = ''Sci-Fi'', r_publication_year = 1965\<rparr>,
          Connected [ex_doc\<lparr>d_ISBN := Some ''0 306 40615 x''\<rparr>])" by code_simp
  have h5: "p_ISBN ex_put_isbn = Val ''0 306 40615 x''" by code_simp
  have h6: "length ''0-306-40615-2'' \<le> 17 \<and> spec_isbn_ok ''0-306-40615-2''" by code_simp
  have h7: "no_other_digits ''0-306-40615-2''" by code_simp
  note t = isbn_checked_stripped_and_raw_stored_raw
    [of "''0-306-40615-2''" "''0-306-40615-2''" "Val ''0-306-40615-2''" ex_new_id ex_payload
        "[ex_doc]" ex_response "Connected [ex_doc, book_dict ex_new_id ex_book]"]
  from t h6 h7 have a: "BookBase_ISBN (Val ''0-306-40615-2'') = Inr ''0-306-40615-2''" by blast
  from t h1 h2 have b: "r_ISBN ex_response = ''0-306-40615-2''" by blast
  from h7 h6 a h1 h2 b h3 h4 h5 show ?thesis by (intro conjI) simp_all
qed

text \<open>
  The claim as it was worded fails both ways: a well-formed ISBN-10 of 19 characters is
  refused, and ten superscript twos, which hold none of the digits 0 to 9, are accepted.
\<close>

theorem isbn_over_17_characters_counterexample:
  "spec_isbn_ok ex_long_isbn
   \<and> BookBase_ISBN (Val ex_long_isbn) = Inl (MaxLength 17)
   \<and> BookUpdate_ISBN (Val ex_long_isbn) = Inl (MaxLength 17)
   \<and> BookCreate (ex_payload\<lparr>p_ISBN := Val ex_long_isbn\<rparr>) = Inl [(''ISBN'', MaxLength 17)]
   \<and> \<not> spec_isbn_ok ex_superscript_isbn
   \<and> BookBase_ISBN (Val ex_superscript_isbn) = Inr ex_superscript_isbn
   \<and> BookUpdate_ISBN (Val ex_superscript_isbn) = Inr (Val ex_superscript_isbn)"
  by code_simp

subsection \<open>Validation of title, author and genre\<close>

lemma post_books_stored_strings:
  assumes "post_books new_id body (Connected docs) = (Inr r, db')"
  shows "\<exists>t a g d. p_title body = Val t \<and> p_author body = Val a \<and> p_genre body = Val g
            \<and> db' = Connected (docs @ [d])
            \<and> d_title d = Some (strip t) \<and> d_author d = Some (strip a)
            \<and> d_genre d = Some (strip g)"
proof -
  from post_books_success [OF assms] obtain book
    where b: "BookCreate body = Inr book"
      and c: "create_book new_id book (Connected docs) = (Inr r, db')" by (elim exE conjE)
  note f = BookCreate_fields [OF b]
  obtain t where t: "p_title body = Val t" using BookBase_title_Val [OF f(1)] by blast
  obtain a where a: "p_author body = Val a" using BookBase_author_Val [OF f(2)] by blast
  obtain g where g: "p_genre body = Val g" using BookBase_genre_Val [OF f(4)] by blast
  have t': "b_title book = strip t" using f(1) unfolding t BookBase_title_iff by simp
  have a': "b_author book = strip a" using f(2) unfolding a BookBase_author_iff by simp
  have g': "b_genre book = strip g" using f(4) unfolding g BookBase_genre_iff by simp
  have "d_title (book_dict new_id book) = Some (strip t)"
    "d_author (book_dict new_id book) = Some (strip a)"
    "d_genre (book_dict new_id book) = Some (strip g)"
    using t' a' g' by (simp_all add: book_dict_def)
  with t a g create_book_success(1) [OF c] show ?thesis by blast
qed

lemma put_books_stored_strings:
  assumes "put_books book_id body (Connected docs) = (Inr r, db')"
  shows "\<exists>docs' d. db' = Connected docs'
            \<and> find_one (\<lambda>x. d_id x = ObjectId book_id) docs' = Some d
            \<and> (\<forall>t. p_title body = Val t \<longrightarrow> d_title d = Some (strip t))
            \<and> (\<forall>a. p_author body = Val a \<longrightarrow> d_author d = Some (strip a))
            \<and> (\<forall>g. p_genre body = Val g \<longrightarrow> d_genre d = Some (strip g))"
proof -
  from put_books_stored [OF assms] obtain u d docs'
    where u: "BookUpdate body = Inr u"
      and db: "db' = Connected docs'"
      and f: "find_one (\<lambda>x. d_id x = ObjectId book_id) docs' = Some (set_fields u d)"
    by (elim exE conjE)
  note v = BookUpdate_fields [OF u]
  have 1: "d_title (set_fields u d) = Some (strip t)" if "p_title body = Val t" for t
  proof -
    from v(1) that have "BookUpdate_title (Val t) = Inr (u_title u)" by simp
    then have "u_title u = Val (strip t)" unfolding BookUpdate_title_iff by simp
    then show ?thesis by (simp add: set_fields_def set_field_def)
  qed
  have 2: "d_author (set_fields u d) = Some (strip a)" if "p_author body = Val a" for a
  proof -
    from v(2) that have "BookUpdate_author (Val a) = Inr (u_author u)" by simp
    then have "u_author u = Val (strip a)" unfolding BookUpdate_author_iff by simp
    then show ?thesis by (simp add: set_fields_def set_field_def)
  qed
  have 3: "d_genre (set_fields u d) = Some (strip g)" if "p_genre body = Val g" for g
  proof -
    from v(4) that have "BookUpdate_genre (Val g) = Inr (u_genre u)" by simp
    then have "u_genre u = Val (strip g)" unfolding BookUpdate_genre_iff by simp
    then show ?thesis by (simp add: set_fields_def set_field_def)
  qed
  from db f 1 2 3 show ?thesis by blast
qed

text \<open>
  C3, as amended. A title, author or genre of a create or update body is accepted if
  and only if the string as sent has between 1 and 200, 100 or 50 characters and is
  not empty after trimming. The accepted value is the trimmed string, and the trimmed
  string is what a successful create or update stores.
\<close>

theorem strings_checked_raw_and_stored_trimmed:
  "(BookBase_title (Val v) = Inr w
      \<longleftrightarrow> 1 \<le> length v \<and> length v \<le> 200 \<and> strip v \<noteq> [] \<and> w = strip v)
   \<and> (BookBase_author (Val v) = Inr w
      \<longleftrightarrow> 1 \<le> length v \<and> length v \<le> 100 \<and> strip v \<noteq> [] \<and> w = strip v)
   \<and> (BookBase_genre (Val v) = Inr w
      \<longleftrightarrow> 1 \<le> length v \<and> length v \<le> 50 \<and> strip v \<noteq> [] \<and> w = strip v)
   \<and> (BookUpdate_title (Val v) = Inr f
      \<longleftrightarrow> 1 \<le> length v \<and> length v \<le> 200 \<and> strip v \<noteq> [] \<and> f = Val (strip v))
   \<and> (BookUpdate_author (Val v) = Inr f
      \<longleftrightarrow> 1 \<le> length v \<and> length v \<le> 100 \<and> strip v \<noteq> [] \<and> f = Val (strip v))
   \<and> (BookUpdate_genre (Val v) = Inr f
      \<longleftrightarrow> 1 \<le> length v \<and> length v \<le> 50 \<and> strip v \<noteq> [] \<and> f = Val (strip v))
   \<and> (post_books new_id body (Connected docs) = (Inr r, db') \<longrightarrow>
         (\<exists>t a g d. p_title body = Val t \<and> p_author body = Val a \<and> p_genre body = Val g
            \<and> db' = Connected (docs @ [d])
            \<and> d_title d = Some (strip t) \<and> d_author d = Some (strip a)
            \<and> d_genre d = Some (strip g)))
   \<and> (put_books book_id body (Connected docs) = (Inr r', db'') \<longrightarrow>
         (\<exists>docs' d. db'' = Connected docs'
            \<and> find_one (\<lambda>x. d_id x = ObjectId book_id) docs' = Some d
            \<and> (\<forall>t. p_title body = Val t \<longrightarrow> d_title d = Some (strip t))
            \<and> (\<forall>a. p_author body = Val a \<longrightarrow> d_author d = Some (strip a))
            \<and> (\<forall>g. p_genre body = Val g \<longrightarrow> d_genre d = Some (strip g))))"
  by (intro conjI impI BookBase_title_iff BookBase_author_iff BookBase_genre_iff
      BookUpdate_title_iff BookUpdate_author_iff BookUpdate_genre_iff
      post_books_stored_strings put_books_stored_strings)

theorem strings_checked_raw_and_stored_trimmed_witness:
  "BookBase_title (Val ''  Emma '') = Inr ''Emma''
   \<and> post_books ex_new_id ex_payload (Connected [ex_doc])
       = (Inr ex_response, Connected [ex_doc, book_dict ex_new_id ex_book])
   \<and> d_title (book_dict ex_new_id ex_book) = Some (strip ''  Emma '')
   \<and> d_genre (book_dict ex_new_id ex_book) = Some (strip '' Fiction'')
   \<and> put_books ex_id ex_put_title (Connected [ex_doc])
       = (Inr \<lparr>r_id = ex_id, r_title = ''Dune Messiah'', r_author = ''Frank Herbert'',
                r_ISBN = ''0306406152'', r_genre = ''Sci-Fi'', r_publication_year = 1965\<rparr>,
          Connected [ex_doc\<lparr>d_title := Some ''Dune Messiah''\<rparr>])
   \<and> p_title ex_put_title = Val '' Dune Messiah  ''
   \<and> strip '' Dune Messiah  '' = ''Dune Messiah''"
proof -
  have h1: "post_books ex_new_id ex_payload (Connected [ex_doc])
       = (Inr ex_response, Connected [ex_doc, book_dict ex_new_id ex_book])" by code_simp
  have h2: "d_title (book_dict ex_new_id ex_book) = Some (strip ''  Emma '')" by code_simp
  have h3: "d_genre (book_dict ex_new_id ex_book) = Some (strip '' Fiction'')" by code_simp
  have h4: "put_books ex_id ex_put_title (Connected [ex_doc])
       = (Inr \<lparr>r_id = ex_id, r_title = ''Dune Messiah'', r_author = ''Frank Herbert'',
                r_ISBN = ''0306406152'', r_genre = ''Sci-Fi'', r_publication_year = 1965\<rparr>,
          Connected [ex_doc\<lparr>d_title := Some ''Dune Messiah''\<rparr>])" by code_simp
  have h5: "p_title ex_put_title = Val '' Dune Messiah  ''" by code_simp
  have h6: "strip '' Dune Messiah  '' = ''Dune Messiah''" by code_simp
  have h7: "1 \<le> length ''  Emma '' \<and> length ''  Emma '' \<le> 200 \<and> strip ''  Emma '' \<noteq> []
            \<and> ''Emma'' = strip ''  Emma ''" by code_simp
  note t = strings_checked_raw_and_stored_trimmed [of "''  Emma ''" "''Emma''"]
  from t h7 have a: "BookBase_title (Val ''  Emma '') = Inr ''Emma''" by blast
  from a h1 h2 h3 h4 h5 h6 show ?thesis by (intro conjI)
qed

theorem padded_genre_counterexample:
  "length (strip ex_padded_genre) = 7
   \<and> length ex_padded_genre = 51
   \<and> BookBase_genre (Val ex_padded_genre) = Inl (MaxLength 50)
   \<and> BookUpdate_genre (Val ex_padded_genre) = Inl (MaxLength 50)
   \<and> BookCreate (ex_payload\<lparr>p_genre := Val ex_padded_genre\<rparr>) = Inl [(''genre'', MaxLength 50)]"
  by code_simp

subsection \<open>Counting by genre\<close>

lemma group_add_keys: "fst ` set (group_add k gs) = insert k (fst ` set gs)"
  by (induction k gs rule: group_add.induct) auto

lemma group_add_distinct:
  "distinct (map fst gs) \<Longrightarrow> distinct (map fst (group_add k gs))"
proof (induction k gs rule: group_add.induct)
  case (1 k)
  then show ?case by simp
next
  case (2 k k' n gs)
  show ?case
  proof (cases "k = k'")
    case True
    with 2 show ?thesis by simp
  next
    case False
    with 2 have "distinct (map fst (group_add k gs))" by simp
    moreover have "k' \<notin> fst ` set (group_add k gs)"
      using 2(2) False by (simp add: group_add_keys)
    ultimately show ?thesis using False by simp
  qed
qed

lemma map_of_group_add:
  "map_of (group_add k gs) k' =
     (if k' = k then Some (case map_of gs k of None \<Rightarrow> 1 | Some n \<Rightarrow> n + 1) else map_of gs k')"
  by (induction k gs rule: group_add.induct) auto

lemma foldl_group_distinct:
  "distinct (map fst gs) \<Longrightarrow>
   distinct (map fst (foldl (\<lambda>gs d. group_add (d_genre d) gs) gs docs))"
  by (induction docs arbitrary: gs) (simp_all add: group_add_distinct)

lemma foldl_group_keys:
  "fst ` set (foldl (\<lambda>gs d. group_add (d_genre d) gs) gs docs) = fst ` set gs \<union> d_genre ` set docs"
  by (induction docs arbitrary: gs) (auto simp: group_add_keys)

lemma foldl_group_count:
  "map_of (foldl (\<lambda>gs d. group_add (d_genre d) gs) gs docs) k =
     (case map_of gs k of
        None \<Rightarrow> (if k \<in> d_genre ` set docs
                  then Some (length (filter (\<lambda>d. d_genre d = k) docs)) else None)
      | Some n \<Rightarrow> Some (n + length (filter (\<lambda>d. d_genre d = k) docs)))"
proof (induction docs arbitrary: gs)
  case Nil
  then show ?case by (simp split: option.splits)
next
  case (Cons d docs)
  show ?case
    by (auto simp: Cons.IH map_of_group_add filter_empty_conv split: option.splits)
qed

lemma insert_desc_set: "set (insert_desc x ys) = insert x (set ys)"
  by (induction x ys rule: insert_desc.induct) auto

lemma insert_desc_distinct:
  "fst x \<notin> fst ` set ys \<Longrightarrow> distinct (map fst ys) \<Longrightarrow> distinct (map fst (insert_desc x ys))"
  by (induction x ys rule: insert_desc.induct) (auto simp: insert_desc_set)

lemma insert_desc_map_of:
  "fst x \<notin> fst ` set ys \<Longrightarrow> map_of (insert_desc x ys) = (map_of ys)(fst x \<mapsto> snd x)"
proof (induction x ys rule: insert_desc.induct)
  case (1 x)
  then show ?case by (cases x) simp
next
  case (2 x y ys)
  then have ne: "fst y \<noteq> fst x" and nin: "fst x \<notin> fst ` set ys" by auto
  show ?case
  proof (cases "snd y \<le> snd x")
    case True
    then show ?thesis by (cases x; cases y) (auto simp: fun_eq_iff)
  next
    case False
    then have "map_of (insert_desc x (y # ys)) = (map_of (insert_desc x ys))(fst y \<mapsto> snd y)"
      by (cases y) simp
    also have "\<dots> = ((map_of ys)(fst x \<mapsto> snd x))(fst y \<mapsto> snd y)"
      by (simp only: 2(1) [OF False nin])
    also have "\<dots> = ((map_of ys)(fst y \<mapsto> snd y))(fst x \<mapsto> snd x)"
      using ne by (simp add: fun_upd_twist)
    also have "(map_of ys)(fst y \<mapsto> snd y) = map_of (y # ys)" by (cases y) simp
    finally show ?thesis .
  qed
qed

lemma insert_desc_sorted:
  "sorted_wrt (\<lambda>a b. snd b \<le> snd a) ys \<Longrightarrow> sorted_wrt (\<lambda>a b. snd b \<le> snd a) (insert_desc x ys)"
  by (induction x ys rule: insert_desc.induct) (auto simp: insert_desc_set)

lemma sort_count_desc_set: "set (sort_count_desc gs) = set gs"
  unfolding sort_count_desc_def by (induction gs) (simp_all add: insert_desc_set)

lemma sort_count_desc_sorted: "sorted_wrt (\<lambda>a b. snd b \<le> snd a) (sort_count_desc gs)"
  unfolding sort_count_desc_def by (induction gs) (simp_all add: insert_desc_sorted)

lemma sort_count_desc_distinct:
  "distinct (map fst gs) \<Longrightarrow> distinct (map fst (sort_count_desc gs))"
proof (induction gs)
  case Nil
  then show ?case by (simp add: sort_count_desc_def)
next
  case (Cons g gs)
  then have "fst g \<notin> fst ` set (sort_count_desc gs)" by (simp add: sort_count_desc_set)
  moreover have "distinct (map fst (sort_count_desc gs))" using Cons by simp
  ultimately have "distinct (map fst (insert_desc g (sort_count_desc gs)))"
    by (rule insert_desc_distinct)
  then show ?case by (simp add: sort_count_desc_def)
qed

lemma sort_count_desc_map_of:
  "distinct (map fst gs) \<Longrightarrow> map_of (sort_count_desc gs) = map_of gs"
proof (induction gs)
  case Nil
  then show ?case by (simp add: sort_count_desc_def)
next
  case (Cons g gs)
  then have nin: "fst g \<notin> fst ` set (sort_count_desc gs)" by (simp add: sort_count_desc_set)
  have "map_of (sort_count_desc (g # gs)) = map_of (insert_desc g (sort_count_desc gs))"
    by (simp add: sort_count_desc_def)
  also have "\<dots> = (map_of (sort_count_desc gs))(fst g \<mapsto> snd g)"
    using nin by (rule insert_desc_map_of)
  also have "\<dots> = (map_of gs)(fst g \<mapsto> snd g)" using Cons by simp
  also have "\<dots> = map_of (g # gs)" by (cases g) simp
  finally show ?case .
qed

lemma dict_set_new: "k \<notin> fst ` set r \<Longrightarrow> dict_set k v r = r @ [(k, v)]"
  by (induction k v r rule: dict_set.induct) auto

lemma foldl_dict_set_distinct:
  "distinct (map fst acc @ map (\<lambda>item. key (fst item)) gs) \<Longrightarrow>
   foldl (\<lambda>result item. dict_set (key (fst item)) (snd item) result) acc gs
     = acc @ map (\<lambda>item. (key (fst item), snd item)) gs"
proof (induction gs arbitrary: acc)
  case Nil
  then show ?case by simp
next
  case (Cons g gs)
  then have new: "key (fst g) \<notin> fst ` set acc" by auto
  have "distinct (map fst (acc @ [(key (fst g), snd g)]) @ map (\<lambda>item. key (fst item)) gs)"
    using Cons.prems by auto
  from Cons.IH [OF this] show ?case by (simp add: dict_set_new [OF new])
qed

lemma genre_key_inj:
  assumes "a \<noteq> Some ''Unknown''" "a \<noteq> Some []" "b \<noteq> Some ''Unknown''" "b \<noteq> Some []"
    and "genre_key a = genre_key b"
  shows "a = b"
  using assms by (cases a; cases b) (auto simp: genre_key_def split: if_splits)

text \<open>
  Where no book has the genre ``Unknown'' or the empty string, the count by genre is
  what the specification says: one entry for each genre present, the missing genre
  under ``Unknown'', each with the number of its books, in descending order of count.
\<close>

lemma count_books_by_genre_without_collision:
  assumes "\<forall>d\<in>set docs. d_genre d \<noteq> Some ''Unknown'' \<and> d_genre d \<noteq> Some []"
  shows "\<exists>gs. count_books_by_genre (Connected docs)
                 = Inr (map (\<lambda>item. (genre_key (fst item), snd item)) gs)
            \<and> distinct (map (\<lambda>item. genre_key (fst item)) gs)
            \<and> sorted_wrt (\<lambda>a b. snd b \<le> snd a) gs
            \<and> (\<forall>g. map_of gs g =
                  (if g \<in> d_genre ` set docs
                   then Some (length (filter (\<lambda>d. d_genre d = g) docs)) else None))"
proof -
  let ?gs = "sort_count_desc (group_by_genre docs)"
  have d0: "distinct (map fst (group_by_genre docs))"
    unfolding group_by_genre_def by (rule foldl_group_distinct) simp
  have d1: "distinct (map fst ?gs)" using d0 by (rule sort_count_desc_distinct)
  have keys: "fst ` set ?gs = d_genre ` set docs"
    by (simp add: sort_count_desc_set group_by_genre_def foldl_group_keys)
  have inj: "inj_on genre_key (fst ` set ?gs)"
    unfolding keys
  proof (rule inj_onI)
    fix a b assume "a \<in> d_genre ` set docs" "b \<in> d_genre ` set docs" "genre_key a = genre_key b"
    then show "a = b" using assms by (auto intro: genre_key_inj)
  qed
  have "distinct (map genre_key (map fst ?gs))"
    by (rule iffD2 [OF distinct_map]) (use d1 inj in simp)
  then have d2: "distinct (map (\<lambda>item. genre_key (fst item)) ?gs)"
    by (simp add: comp_def)
  have "foldl (\<lambda>result item. dict_set (genre_key (fst item)) (snd item) result) [] ?gs
          = [] @ map (\<lambda>item. (genre_key (fst item), snd item)) ?gs"
    by (rule foldl_dict_set_distinct) (simp add: d2)
  then have res: "count_books_by_genre (Connected docs)
                 = Inr (map (\<lambda>item. (genre_key (fst item), snd item)) ?gs)"
    by (simp add: count_books_by_genre_def)
  have cnt: "map_of ?gs g =
                  (if g \<in> d_genre ` set docs
                   then Some (length (filter (\<lambda>d. d_genre d = g) docs)) else None)" for g
  proof -
    have "map_of ?gs = map_of (group_by_genre docs)" using d0 by (rule sort_count_desc_map_of)
    then show ?thesis by (simp add: group_by_genre_def foldl_group_count)
  qed
  from res d2 sort_count_desc_sorted cnt show ?thesis by blast
qed

text \<open>
  C9. On a collection of two books of genre ``Unknown'' and one book without a genre
  the count by genre is the single entry ``Unknown'': 1. The group of the missing
  genre is written under the key of the genre ``Unknown'' and replaces its count, so
  the result does not map that genre to the number of its books.
\<close>

theorem count_by_genre_merges_unknown:
  "count_books_by_genre (Connected ex_unknown_docs) = Inr [(''Unknown'', 1)]
   \<and> length (filter (\<lambda>d. d_genre d = Some ''Unknown'') ex_unknown_docs) = 2
   \<and> length (filter (\<lambda>d. d_genre d = None) ex_unknown_docs) = 1"
  by code_simp

lemma count_by_genre_example_of_the_specification:
  "count_books_by_genre (Connected ex_claim_docs)
     = Inr [(''Fiction'', 3), (''Sci-Fi'', 1), (''Unknown'', 1)]"
  by code_simp

subsection \<open>Searching by text\<close>









end
